theory Spec2Isabelle
  imports Main "HOL-Library.AList" "HOL-Library.Multiset"
begin

section \<open>Strings, errors and the catalog\<close>

text \<open>
  Python \<open>str\<close> values are modelled by \<^typ>\<open>string\<close>. A character outside ASCII is
  written as the bytes of its UTF-8 encoding, the form in which \<open>data/spells.json\<close> stores
  it (\<open>ensure_ascii=False\<close>). The encoding is injective, so the equality and membership
  tests of the scripts are the ones of the model. Only \<open>len\<close> counts code points; it is
  \<open>py_len\<close> below, which counts the bytes that start a code point.
\<close>

definition py_len :: "string \<Rightarrow> nat" where
  "py_len s = length (filter (\<lambda>c. \<not> (128 \<le> (of_char c :: nat) \<and> (of_char c :: nat) < 192)) s)"

text \<open>The truth value of an optional string: \<open>None\<close> and \<open>""\<close> are false.\<close>

fun truthy :: "string option \<Rightarrow> bool" where
  "truthy None = False"
| "truthy (Some s) = (s \<noteq> [])"

text \<open>
  The exceptions that end a run: the two the code can raise on a parsed catalog, and those
  of reading, parsing and writing the files.
\<close>

datatype py_error =
  IndexError | KeyError | OSError | UnicodeDecodeError | JSONDecodeError | AttributeError

text \<open>
  One spell entry of the catalog, with the keys and the value types of the file the
  scraper writes (strings, and a boolean for \<open>is_combo\<close>). Every key is optional in the
  JSON file, and the scripts read them with \<open>.get\<close>; \<open>None\<close> is the missing key.
\<close>

record spell =
  ru_name :: "string option"
  ru_url :: "string option"
  en_name :: "string option"
  en_url :: "string option"
  tier :: "string option"
  primary_school :: "string option"
  secondary_school :: "string option"
  is_combo :: "bool option"

type_synonym spell_dict = "(string \<times> spell) list"

text \<open>
  A dict is an association list in insertion order; \<open>AList.update\<close> is the assignment
  \<open>d[k] = v\<close> (in place for a present key, appended for a new one).
\<close>

record school =
  s_ru_url :: "string option"
  s_en_name :: "string option"
  spells :: "spell_dict option"

type_synonym catalog = "(string \<times> school) list"

record document =
  meta :: "(string \<times> string) list option"
  schools :: "catalog option"

section \<open>apply_combo_schools.py\<close>

definition AERO :: string where
  "AERO = [
     CHR 0xD0, CHR 0x90, CHR 0xD1, CHR 0x8D, CHR 0xD1, CHR 0x80, CHR 0xD0, CHR 0xBE,
     CHR 0xD1, CHR 0x82, CHR 0xD0, CHR 0xB5, CHR 0xD1, CHR 0x83, CHR 0xD1, CHR 0x80,
     CHR 0xD0, CHR 0xB3, CHR 0xD0, CHR 0xB8, CHR 0xD1, CHR 0x8F]"

definition GEO :: string where
  "GEO = [
     CHR 0xD0, CHR 0x93, CHR 0xD0, CHR 0xB5, CHR 0xD0, CHR 0xBE, CHR 0xD0, CHR 0xBC,
     CHR 0xD0, CHR 0xB0, CHR 0xD0, CHR 0xBD, CHR 0xD1, CHR 0x82, CHR 0xD0, CHR 0xB8,
     CHR 0xD1, CHR 0x8F]"

definition HYDRO :: string where
  "HYDRO = [
     CHR 0xD0, CHR 0x93, CHR 0xD0, CHR 0xB8, CHR 0xD0, CHR 0xB4, CHR 0xD1, CHR 0x80,
     CHR 0xD0, CHR 0xBE, CHR 0xD1, CHR 0x81, CHR 0xD0, CHR 0xBE, CHR 0xD1, CHR 0x84,
     CHR 0xD0, CHR 0xB8, CHR 0xD1, CHR 0x81, CHR 0xD1, CHR 0x82, CHR 0xD0, CHR 0xB8,
     CHR 0xD0, CHR 0xBA, CHR 0xD0, CHR 0xB0]"

definition PYRO :: string where
  "PYRO = [
     CHR 0xD0, CHR 0x9F, CHR 0xD0, CHR 0xB8, CHR 0xD1, CHR 0x80, CHR 0xD0, CHR 0xBE,
     CHR 0xD0, CHR 0xBA, CHR 0xD0, CHR 0xB8, CHR 0xD0, CHR 0xBD, CHR 0xD0, CHR 0xB5,
     CHR 0xD1, CHR 0x82, CHR 0xD0, CHR 0xB8, CHR 0xD0, CHR 0xBA, CHR 0xD0, CHR 0xB0]"

definition NECRO :: string where
  "NECRO = [
     CHR 0xD0, CHR 0x9D, CHR 0xD0, CHR 0xB5, CHR 0xD0, CHR 0xBA, CHR 0xD1, CHR 0x80,
     CHR 0xD0, CHR 0xBE, CHR 0xD0, CHR 0xBC, CHR 0xD0, CHR 0xB0, CHR 0xD0, CHR 0xBD,
     CHR 0xD1, CHR 0x82, CHR 0xD0, CHR 0xB8, CHR 0xD1, CHR 0x8F]"

definition POLY :: string where
  "POLY = [
     CHR 0xD0, CHR 0x9F, CHR 0xD1, CHR 0x80, CHR 0xD0, CHR 0xB5, CHR 0xD0, CHR 0xB2,
     CHR 0xD1, CHR 0x80, CHR 0xD0, CHR 0xB0, CHR 0xD1, CHR 0x89, CHR 0xD0, CHR 0xB5,
     CHR 0xD0, CHR 0xBD, CHR 0xD0, CHR 0xB8, CHR 0xD0, CHR 0xB5]"

definition HUNT :: string where
  "HUNT = [
     CHR 0xD0, CHR 0x9C, CHR 0xD0, CHR 0xB0, CHR 0xD1, CHR 0x81, CHR 0xD1, CHR 0x82,
     CHR 0xD0, CHR 0xB5, CHR 0xD1, CHR 0x80, CHR 0xD1, CHR 0x81, CHR 0xD1, CHR 0x82,
     CHR 0xD0, CHR 0xB2, CHR 0xD0, CHR 0xBE, CHR 0x20, CHR 0xD0, CHR 0xBE, CHR 0xD1,
     CHR 0x85, CHR 0xD0, CHR 0xBE, CHR 0xD1, CHR 0x82, CHR 0xD1, CHR 0x8B]"

definition SCOUNDREL :: string where
  "SCOUNDREL = [
     CHR 0xD0, CHR 0x98, CHR 0xD1, CHR 0x81, CHR 0xD0, CHR 0xBA, CHR 0xD1, CHR 0x83,
     CHR 0xD1, CHR 0x81, CHR 0xD1, CHR 0x81, CHR 0xD1, CHR 0x82, CHR 0xD0, CHR 0xB2,
     CHR 0xD0, CHR 0xBE, CHR 0x20, CHR 0xD1, CHR 0x83, CHR 0xD0, CHR 0xB1, CHR 0xD0,
     CHR 0xB8, CHR 0xD0, CHR 0xB9, CHR 0xD1, CHR 0x81, CHR 0xD1, CHR 0x82, CHR 0xD0,
     CHR 0xB2, CHR 0xD0, CHR 0xB0]"

definition SUMMON :: string where
  "SUMMON = [
     CHR 0xD0, CHR 0x9F, CHR 0xD1, CHR 0x80, CHR 0xD0, CHR 0xB8, CHR 0xD0, CHR 0xB7,
     CHR 0xD1, CHR 0x8B, CHR 0xD0, CHR 0xB2, CHR 0xD0, CHR 0xB0, CHR 0xD0, CHR 0xBD,
     CHR 0xD0, CHR 0xB8, CHR 0xD0, CHR 0xB5]"

definition WARFARE :: string where
  "WARFARE = [
     CHR 0xD0, CHR 0x92, CHR 0xD0, CHR 0xBE, CHR 0xD0, CHR 0xB5, CHR 0xD0, CHR 0xBD,
     CHR 0xD0, CHR 0xBD, CHR 0xD0, CHR 0xBE, CHR 0xD0, CHR 0xB5, CHR 0x20, CHR 0xD0,
     CHR 0xB4, CHR 0xD0, CHR 0xB5, CHR 0xD0, CHR 0xBB, CHR 0xD0, CHR 0xBE]"

text \<open>
  The table lists the four elements first in every pair (its groups are the Aerotheurge,
  Geomancer, Hydrosophist and Pyrokinetic combos); the second member is one of the other
  six schools.
\<close>

definition elemental :: "string list" where
  "elemental = [AERO, GEO, HYDRO, PYRO]"

definition class_style :: "string list" where
  "class_style = [WARFARE, HUNT, SCOUNDREL, POLY, SUMMON, NECRO]"

definition DUAL_MAP :: "(string \<times> string list) list" where
  "DUAL_MAP = [
     (''Breathing Bubble'', [AERO, WARFARE]),
     (''Mass Breathing Bubbles'', [AERO, WARFARE]),
     (''Erratic Wisp'', [AERO, HUNT]),
     (''Evasive Aura'', [AERO, HUNT]),
     (''Smoke Cover'', [AERO, SCOUNDREL]),
     (''Blessed Smoke Cloud'', [AERO, SCOUNDREL]),
     (''Vaporize'', [AERO, POLY]),
     (''Jellyfish Skin'', [AERO, POLY]),
     (''Electric Infusion'', [AERO, SUMMON]),
     (''Cursed Electric Infusion'', [AERO, SUMMON]),
     (''Vacuum Touch'', [AERO, NECRO]),
     (''Vacuum Aura'', [AERO, NECRO]),
     (''Oily Carapace'', [GEO, WARFARE]),
     (''Mass Oily Carapace'', [GEO, WARFARE]),
     (''Throw Dust'', [GEO, HUNT]),
     (''Dust Blast'', [GEO, HUNT]),
     (''Venom Coating'', [GEO, SCOUNDREL]),
     (''Venomous Aura'', [GEO, SCOUNDREL]),
     (''Turn to Oil'', [GEO, POLY]),
     (''Poisonous Skin'', [GEO, POLY]),
     (''Poison Infusion'', [GEO, SUMMON]),
     (''Acid Infusion'', [GEO, SUMMON]),
     (''Corrosive Touch'', [GEO, NECRO]),
     (''Corrosive Spray'', [GEO, NECRO]),
     (''Cleanse Wounds'', [HYDRO, WARFARE]),
     (''Mass Cleanse Wounds'', [HYDRO, WARFARE]),
     (''Cryotherapy'', [HYDRO, HUNT]),
     (''Mass Cryotherapy'', [HYDRO, HUNT]),
     (''Vampiric Hunger'', [HYDRO, SCOUNDREL]),
     (''Vampiric Hunger Aura'', [HYDRO, SCOUNDREL]),
     (''Healing Tears'', [HYDRO, POLY]),
     (''Icy Skin'', [HYDRO, POLY]),
     (''Water Infusion'', [HYDRO, SUMMON]),
     (''Ice Infusion'', [HYDRO, SUMMON]),
     (''Raining Blood'', [HYDRO, NECRO]),
     (''Blood Storm'', [HYDRO, NECRO]),
     (''Sparking Swings'', [PYRO, WARFARE]),
     (''Master of Sparks'', [PYRO, WARFARE]),
     (''Throw Explosive Trap'', [PYRO, HUNT]),
     (''Deploy Mass Traps'', [PYRO, HUNT]),
     (''Sabotage'', [PYRO, SCOUNDREL]),
     (''Mass Sabotage'', [PYRO, SCOUNDREL]),
     (''Bleed Fire'', [PYRO, POLY]),
     (''Flaming Skin'', [PYRO, POLY]),
     (''Fire Infusion'', [PYRO, SUMMON]),
     (''Necrofire Infusion'', [PYRO, SUMMON]),
     (''Corpse Explosion'', [PYRO, NECRO]),
     (''Mass Corpse Explosion'', [PYRO, NECRO])]"

text \<open>Lines 98-112: the secondary school wanted for a spell, from its stored primary.\<close>

definition target_secondary :: "string list \<Rightarrow> string option \<Rightarrow> py_error + string" where
  "target_secondary components current_primary =
     (if (case current_primary of None \<Rightarrow> False | Some p \<Rightarrow> p \<in> set components)
      then (case filter (\<lambda>c. Some c \<noteq> current_primary) components of
              [] \<Rightarrow> Inl IndexError
            | other # _ \<Rightarrow> Inr other)
      else (case components of
              _ # second # _ \<Rightarrow> Inr second
            | _ \<Rightarrow> Inl IndexError))"

datatype msg =
    Fixed string "string option" string
  | Saved nat
  | NotFound

text \<open>
  Lines 91-118 for one spell whose name is in the table: the updated spell, what is
  printed, and the increment of \<open>fixed_count\<close>.
\<close>

definition assign_secondary ::
  "string list \<Rightarrow> string \<Rightarrow> spell \<Rightarrow> py_error + (spell \<times> msg list \<times> nat)" where
  "assign_secondary components name sp =
     (case target_secondary components (primary_school sp) of
        Inl e \<Rightarrow> Inl e
      | Inr target \<Rightarrow>
          if secondary_school sp \<noteq> Some target
          then Inr (sp\<lparr>secondary_school := Some target, is_combo := Some True\<rparr>,
                    [Fixed name (primary_school sp) target], 1)
          else Inr (sp, [], 0))"

text \<open>Line 88: \<open>spell.get("en_name", key)\<close>.\<close>

definition get_en_name :: "string \<Rightarrow> spell \<Rightarrow> string" where
  "get_en_name key sp = (case en_name sp of None \<Rightarrow> key | Some n \<Rightarrow> n)"

text \<open>Lines 88-118: the body of the inner loop.\<close>

definition fix_spell :: "string \<Rightarrow> spell \<Rightarrow> py_error + (spell \<times> msg list \<times> nat)" where
  "fix_spell key sp =
     (case map_of DUAL_MAP (get_en_name key sp) of
        None \<Rightarrow> Inr (sp, [], 0)
      | Some components \<Rightarrow> assign_secondary components (get_en_name key sp) sp)"

fun fix_spells :: "spell_dict \<Rightarrow> py_error + (spell_dict \<times> msg list \<times> nat)" where
  "fix_spells [] = Inr ([], [], 0)"
| "fix_spells ((key, sp) # rest) =
     (case fix_spell key sp of
        Inl e \<Rightarrow> Inl e
      | Inr (sp', out, n) \<Rightarrow>
          (case fix_spells rest of
             Inl e \<Rightarrow> Inl e
           | Inr (rest', out', n') \<Rightarrow> Inr ((key, sp') # rest', out @ out', n + n')))"

definition fix_school :: "school \<Rightarrow> py_error + (school \<times> msg list \<times> nat)" where
  "fix_school sch =
     (case spells sch of
        None \<Rightarrow> Inr (sch, [], 0)
      | Some sps \<Rightarrow>
          (case fix_spells sps of
             Inl e \<Rightarrow> Inl e
           | Inr (sps', out, n) \<Rightarrow> Inr (sch\<lparr>spells := Some sps'\<rparr>, out, n)))"

fun fix_schools :: "catalog \<Rightarrow> py_error + (catalog \<times> msg list \<times> nat)" where
  "fix_schools [] = Inr ([], [], 0)"
| "fix_schools ((school_name, sch) # rest) =
     (case fix_school sch of
        Inl e \<Rightarrow> Inl e
      | Inr (sch', out, n) \<Rightarrow>
          (case fix_schools rest of
             Inl e \<Rightarrow> Inl e
           | Inr (rest', out', n') \<Rightarrow> Inr ((school_name, sch') # rest', out @ out', n + n')))"

text \<open>
  \<open>main\<close> of the script on a file that is read, parsed and written without error. The
  argument is the content of \<open>data/spells.json\<close>, \<open>None\<close> when the file does not exist;
  the result is the content afterwards and the printed lines.
\<close>

definition apply_main :: "document option \<Rightarrow> py_error + (document option \<times> msg list)" where
  "apply_main doc =
     (case doc of
        None \<Rightarrow> Inr (None, [NotFound])
      | Some data \<Rightarrow>
          (case schools data of
             None \<Rightarrow> Inr (Some data, [Saved 0])
           | Some cat \<Rightarrow>
               (case fix_schools cat of
                  Inl e \<Rightarrow> Inl e
                | Inr (cat', out, fixed_count) \<Rightarrow>
                    Inr (Some (data\<lparr>schools := Some cat'\<rparr>), out @ [Saved fixed_count]))))"









text \<open>The identifiers of every category, in order: the membership of the catalog.\<close>

definition spell_keys :: "school \<Rightarrow> string list" where
  "spell_keys sch = (case spells sch of None \<Rightarrow> [] | Some sps \<Rightarrow> map fst sps)"

definition members :: "catalog \<Rightarrow> (string \<times> string list) list" where
  "members cat = map (\<lambda>(k, sch). (k, spell_keys sch)) cat"

definition file_members :: "document option \<Rightarrow> (string \<times> string list) list" where
  "file_members doc =
     (case doc of
        None \<Rightarrow> []
      | Some data \<Rightarrow> (case schools data of None \<Rightarrow> [] | Some cat \<Rightarrow> members cat))"

text \<open>Sample entries: a combo spell as the listing passes leave it, and a file holding it.\<close>

definition corpse_explosion :: spell where
  "corpse_explosion =
     \<lparr>ru_name = Some ''Vzryv trupa'', ru_url = Some ''https://divinity.fandom.com/ru/wiki/x'',
      en_name = Some ''Corpse Explosion'', en_url = Some [], tier = Some ''Adept'',
      primary_school = Some PYRO, secondary_school = None, is_combo = None\<rparr>"

definition pyro_school :: "spell_dict \<Rightarrow> school" where
  "pyro_school sps = \<lparr>s_ru_url = None, s_en_name = Some ''Pyrokinetic'', spells = Some sps\<rparr>"

definition sample_file :: "spell_dict \<Rightarrow> document option" where
  "sample_file sps = Some \<lparr>meta = None, schools = Some [(PYRO, pyro_school sps)]\<rparr>"

text \<open>
  The same entry with its secondary school already set, and with a stored primary school
  that is not in its pair.
\<close>

definition settled_spell :: spell where
  "settled_spell = corpse_explosion\<lparr>secondary_school := Some NECRO\<rparr>"

definition inconsistent_spell :: spell where
  "inconsistent_spell =
     corpse_explosion\<lparr>primary_school := Some HYDRO, secondary_school := Some NECRO\<rparr>"

section \<open>scrape_all_spells.py\<close>

text \<open>
  The literals of the script: the key of the catalog's combo bucket, the key of the
  special skills, the initial tier of a table, the tier of a combo skill and the text that
  marks a combo table.
\<close>

definition COMBO_SCHOOL :: string where
  "COMBO_SCHOOL = [
     CHR 0xD0, CHR 0x9A, CHR 0xD0, CHR 0xBE, CHR 0xD0, CHR 0xBC, CHR 0xD0, CHR 0xB1,
     CHR 0xD0, CHR 0xB8, CHR 0xD0, CHR 0xBD, CHR 0xD0, CHR 0xB8, CHR 0xD1, CHR 0x80,
     CHR 0xD0, CHR 0xBE, CHR 0xD0, CHR 0xB2, CHR 0xD0, CHR 0xB0, CHR 0xD0, CHR 0xBD,
     CHR 0xD0, CHR 0xBD, CHR 0xD1, CHR 0x8B, CHR 0xD0, CHR 0xB5, CHR 0x20, CHR 0xD0,
     CHR 0xBD, CHR 0xD0, CHR 0xB0, CHR 0xD0, CHR 0xB2, CHR 0xD1, CHR 0x8B, CHR 0xD0,
     CHR 0xBA, CHR 0xD0, CHR 0xB8]"

definition SPECIAL_SCHOOL :: string where
  "SPECIAL_SCHOOL = [
     CHR 0xD0, CHR 0x9E, CHR 0xD1, CHR 0x81, CHR 0xD0, CHR 0xBE, CHR 0xD0, CHR 0xB1,
     CHR 0xD1, CHR 0x8B, CHR 0xD0, CHR 0xB5, CHR 0x20, CHR 0xD0, CHR 0xBD, CHR 0xD0,
     CHR 0xB0, CHR 0xD0, CHR 0xB2, CHR 0xD1, CHR 0x8B, CHR 0xD0, CHR 0xBA, CHR 0xD0,
     CHR 0xB8]"

definition UNKNOWN_TIER :: string where
  "UNKNOWN_TIER = [
     CHR 0xD0, CHR 0x9D, CHR 0xD0, CHR 0xB5, CHR 0xD0, CHR 0xB8, CHR 0xD0, CHR 0xB7,
     CHR 0xD0, CHR 0xB2, CHR 0xD0, CHR 0xB5, CHR 0xD1, CHR 0x81, CHR 0xD1, CHR 0x82,
     CHR 0xD0, CHR 0xBD, CHR 0xD0, CHR 0xBE]"

definition COMBO_TIER :: string where
  "COMBO_TIER = [
     CHR 0xD0, CHR 0x9A, CHR 0xD0, CHR 0xBE, CHR 0xD0, CHR 0xBC, CHR 0xD0, CHR 0xB1,
     CHR 0xD0, CHR 0xB8, CHR 0xD0, CHR 0xBD, CHR 0xD0, CHR 0xB8, CHR 0xD1, CHR 0x80,
     CHR 0xD0, CHR 0xBE, CHR 0xD0, CHR 0xB2, CHR 0xD0, CHR 0xB0, CHR 0xD0, CHR 0xBD,
     CHR 0xD0, CHR 0xBD, CHR 0xD1, CHR 0x8B, CHR 0xD0, CHR 0xB5]"

definition COMBO_MARK :: string where
  "COMBO_MARK = [
     CHR 0xD0, CHR 0x9A, CHR 0xD0, CHR 0xBE, CHR 0xD0, CHR 0xBC, CHR 0xD0, CHR 0xB1,
     CHR 0xD0, CHR 0xB8, CHR 0xD0, CHR 0xBD, CHR 0xD0, CHR 0xB8, CHR 0xD1, CHR 0x80,
     CHR 0xD0, CHR 0xBE, CHR 0xD0, CHR 0xB2, CHR 0xD0, CHR 0xB0, CHR 0xD0, CHR 0xBD,
     CHR 0xD0, CHR 0xBD, CHR 0xD1, CHR 0x8B, CHR 0xD0, CHR 0xB9, CHR 0x20, CHR 0xD0,
     CHR 0xBD, CHR 0xD0, CHR 0xB0, CHR 0xD0, CHR 0xB2, CHR 0xD1, CHR 0x8B, CHR 0xD0,
     CHR 0xBA]"
definition FEXTRA_URL :: string where
  "FEXTRA_URL = ''https://divinityoriginalsin2.wiki.fextralife.com/''"

definition MAIN_SKILLS_URL :: string where
  "MAIN_SKILLS_URL =
     ''https://divinity.fandom.com/ru/wiki/'' @
     ''%D0%9D%D0%B0%D0%B2%D1%8B%D0%BA%D0%B8_%D0%B2_Original_Sin_2''"

text \<open>\<open>RU_TO_EN_SCHOOL\<close>, in the order of \<open>SCHOOL_NAME_MAP\<close>.\<close>

definition RU_TO_EN_SCHOOL :: "(string \<times> string) list" where
  "RU_TO_EN_SCHOOL =
     [(AERO, ''Aerotheurge''), (WARFARE, ''Warfare''), (GEO, ''Geomancer''),
      (HYDRO, ''Hydrosophist''), (SCOUNDREL, ''Scoundrel''), (HUNT, ''Huntsman''),
      (NECRO, ''Necromancer''), (PYRO, ''Pyrokinetic''), (POLY, ''Polymorph''),
      (SUMMON, ''Summoning'')]"

text \<open>The substring test \<open>sub in s\<close>.\<close>

fun contains :: "string \<Rightarrow> string \<Rightarrow> bool" where
  "contains [] sub = (sub = [])"
| "contains (c # cs) sub = (take (length sub) (c # cs) = sub \<or> contains cs sub)"

text \<open>
  \<open>urllib.parse.quote\<close> with its default safe character: every byte of the UTF-8
  encoding that is not a letter, a digit or one of \<open>_.-~/\<close> becomes \<open>%XX\<close>.
\<close>

definition quote_safe :: "char \<Rightarrow> bool" where
  "quote_safe c =
     (c \<in> set ''ABCDEFGHIJKLMNOPQRSTUVWXYZabcdefghijklmnopqrstuvwxyz0123456789_.-~/'')"

definition hex_digit :: "nat \<Rightarrow> char" where
  "hex_digit n = ''0123456789ABCDEF'' ! (n mod 16)"

definition quote :: "string \<Rightarrow> string" where
  "quote s =
     concat (map (\<lambda>c. if quote_safe c then [c]
                      else [CHR ''%'', hex_digit (of_char c div 16), hex_digit (of_char c)]) s)"

text \<open>\<open>d.update(other)\<close>.\<close>

definition dict_update :: "('k \<times> 'v) list \<Rightarrow> ('k \<times> 'v) list \<Rightarrow> ('k \<times> 'v) list" where
  "dict_update d other = fold (\<lambda>(k, v). AList.update k v) other d"

text \<open>
  What the HTML layer hands to the reconciliation. A row of a skill table is a tier header
  (a \<open>th\<close> with \<open>colspan\<close>, with its stripped text), a row without two cells or without
  a name link, or a skill row: the cleaned text of the name link, the URL of the link
  joined to \<open>BASE_URL\<close> by \<open>urljoin\<close>, and the English name that \<open>get_soup\<close> and
  \<open>extract_english_name\<close> recover from the skill's page when the script asks for it
  (\<open>None\<close>: page not loaded, or no name found).
\<close>

datatype row =
    HeaderRow string
  | OtherRow
  | SkillRow string string "string option"

text \<open>
  Lines 132-146 and 290-302: the identifier of a skill, from \<open>EXISTING_MAPPINGS\<close>, else
  from the skill's page, else the Russian name.
\<close>

definition resolve_en_name ::
  "(string \<Rightarrow> string option) \<Rightarrow> string \<Rightarrow> string option \<Rightarrow> string" where
  "resolve_en_name mp ru fetched =
     (case (if truthy (mp ru) then mp ru else fetched) of
        None \<Rightarrow> ru
      | Some en \<Rightarrow> if en \<noteq> [] then en else ru)"

text \<open>Line 149 and line 305.\<close>

definition guess_en_url :: "string \<Rightarrow> string \<Rightarrow> string" where
  "guess_en_url en ru = (if en \<noteq> ru then FEXTRA_URL @ quote en else [])"

text \<open>Lines 151-158: the record of a skill row.\<close>

definition listing_record :: "string \<Rightarrow> string \<Rightarrow> string \<Rightarrow> string \<Rightarrow> string \<Rightarrow> spell" where
  "listing_record ru ru_u en current_tier default_school =
     \<lparr>ru_name = Some ru, ru_url = Some ru_u, en_name = Some en,
      en_url = Some (guess_en_url en ru), tier = Some current_tier,
      primary_school = Some default_school, secondary_school = None, is_combo = None\<rparr>"

text \<open>The loop of \<open>parse_skill_table\<close> (lines 92-159), with \<open>spells\<close> and \<open>current_tier\<close> as state.\<close>

fun parse_rows ::
  "(string \<Rightarrow> string option) \<Rightarrow> string \<Rightarrow> row list \<Rightarrow> spell_dict \<times> string \<Rightarrow> spell_dict" where
  "parse_rows mp default_school [] (sps, current_tier) = sps"
| "parse_rows mp default_school (HeaderRow text # rows) (sps, current_tier) =
     parse_rows mp default_school rows
       (sps, if text \<noteq> [] \<and> py_len text > 3 then text else current_tier)"
| "parse_rows mp default_school (OtherRow # rows) (sps, current_tier) =
     parse_rows mp default_school rows (sps, current_tier)"
| "parse_rows mp default_school (SkillRow ru ru_u fetched # rows) (sps, current_tier) =
     (if ru = [] \<or> py_len ru < 2 then parse_rows mp default_school rows (sps, current_tier)
      else parse_rows mp default_school rows
             (AList.update (resolve_en_name mp ru fetched)
                (listing_record ru ru_u (resolve_en_name mp ru fetched) current_tier default_school)
                sps,
              current_tier))"

definition parse_skill_table ::
  "(string \<Rightarrow> string option) \<Rightarrow> row list \<Rightarrow> string \<Rightarrow> spell_dict" where
  "parse_skill_table mp table default_school =
     parse_rows mp default_school table ([], UNKNOWN_TIER)"

text \<open>
  Lines 208-215 and 232-234: every table of a page is parsed and merged into the same
  dict with \<open>update\<close>.
\<close>

definition parse_tables ::
  "(string \<Rightarrow> string option) \<Rightarrow> string \<Rightarrow> row list list \<Rightarrow> spell_dict \<Rightarrow> spell_dict" where
  "parse_tables mp default_school tables sps =
     fold (\<lambda>table acc. dict_update acc (parse_skill_table mp table default_school)) tables sps"

text \<open>
  A link of the main page: its text, its joined URL, and the tables of the page behind it
  (\<open>None\<close> when \<open>get_soup\<close> fails).
\<close>

record link =
  link_text :: string
  link_url :: string
  link_page :: "row list list option"

text \<open>Lines 179-186: the school a link stands for.\<close>

definition target_school_of :: "string \<Rightarrow> string option" where
  "target_school_of ru_school_name =
     (if ru_school_name \<in> set (map fst RU_TO_EN_SCHOOL) then Some ru_school_name
      else (case filter (\<lambda>ru. contains ru_school_name ru) (map fst RU_TO_EN_SCHOOL) of
              [] \<Rightarrow> None
            | ru # _ \<Rightarrow> Some ru))"

text \<open>The loop of \<open>scrape_schools\<close> (lines 175-217), with \<open>schools\<close> and \<open>processed_urls\<close> as state.\<close>

fun scrape_links ::
  "(string \<Rightarrow> string option) \<Rightarrow> link list \<Rightarrow> catalog \<times> string list \<Rightarrow> catalog" where
  "scrape_links mp [] (schs, processed_urls) = schs"
| "scrape_links mp (l # ls) (schs, processed_urls) =
     (case target_school_of (link_text l) of
        None \<Rightarrow> scrape_links mp ls (schs, processed_urls)
      | Some target_school \<Rightarrow>
          if target_school = [] then scrape_links mp ls (schs, processed_urls)
          else if link_url l \<in> set processed_urls then scrape_links mp ls (schs, processed_urls)
          else scrape_links mp ls
                 (AList.update target_school
                    \<lparr>s_ru_url = Some (link_url l),
                     s_en_name = map_of RU_TO_EN_SCHOOL target_school,
                     spells = Some (case link_page l of
                                      None \<Rightarrow> []
                                    | Some tables \<Rightarrow> parse_tables mp target_school tables [])\<rparr>
                    schs,
                  link_url l # processed_urls))"

definition scrape_schools :: "(string \<Rightarrow> string option) \<Rightarrow> link list option \<Rightarrow> catalog" where
  "scrape_schools mp page =
     (case page of None \<Rightarrow> [] | Some links \<Rightarrow> scrape_links mp links ([], []))"

definition scrape_special_skills ::
  "(string \<Rightarrow> string option) \<Rightarrow> row list list option \<Rightarrow> catalog" where
  "scrape_special_skills mp page =
     (case page of
        None \<Rightarrow> []
      | Some tables \<Rightarrow>
          [(SPECIAL_SCHOOL,
            \<lparr>s_ru_url = None, s_en_name = Some ''Special'',
             spells = Some (parse_tables mp SPECIAL_SCHOOL tables [])\<rparr>)])"

text \<open>
  A row of a combo table: one with fewer than three cells or without an anchor, or the
  cleaned name, the joined URL, the texts of the two school cells and the English name
  recovered from the skill's page.
\<close>

datatype combo_row =
    ComboOther
  | ComboRow string string string string "string option"

record combo_table =
  table_text :: string
  combo_rows :: "combo_row list"

text \<open>Lines 287-288: \<open>next((k for k in RU_TO_EN_SCHOOL if k in school), school)\<close>.\<close>

definition clean_school :: "string \<Rightarrow> string" where
  "clean_school school_text =
     (case filter (\<lambda>k. contains school_text k) (map fst RU_TO_EN_SCHOOL) of
        [] \<Rightarrow> school_text
      | k # _ \<Rightarrow> k)"

text \<open>Lines 307-316: the record of a combo row.\<close>

definition combo_record :: "string \<Rightarrow> string \<Rightarrow> string \<Rightarrow> string \<Rightarrow> string \<Rightarrow> spell" where
  "combo_record ru ru_u en school1 school2 =
     \<lparr>ru_name = Some ru, ru_url = Some ru_u, en_name = Some en,
      en_url = Some (guess_en_url en ru), tier = Some COMBO_TIER,
      primary_school = Some (clean_school school1),
      secondary_school = Some (clean_school school2), is_combo = Some True\<rparr>"

fun combo_row_step :: "(string \<Rightarrow> string option) \<Rightarrow> combo_row \<Rightarrow> spell_dict \<Rightarrow> spell_dict" where
  "combo_row_step mp ComboOther all_spells = all_spells"
| "combo_row_step mp (ComboRow ru ru_u school1 school2 fetched) all_spells =
     AList.update (resolve_en_name mp ru fetched)
       (combo_record ru ru_u (resolve_en_name mp ru fetched) school1 school2) all_spells"

definition combo_table_step ::
  "(string \<Rightarrow> string option) \<Rightarrow> combo_table \<Rightarrow> spell_dict \<Rightarrow> spell_dict" where
  "combo_table_step mp table all_spells =
     (if \<not> contains (table_text table) COMBO_MARK then all_spells
      else fold (combo_row_step mp) (combo_rows table) all_spells)"

definition scrape_combo_skills ::
  "(string \<Rightarrow> string option) \<Rightarrow> combo_table list option \<Rightarrow> catalog" where
  "scrape_combo_skills mp page =
     (case page of
        None \<Rightarrow> []
      | Some tables \<Rightarrow>
          [(COMBO_SCHOOL,
            \<lparr>s_ru_url = None, s_en_name = Some ''Crafted'',
             spells = Some (fold (combo_table_step mp) tables [])\<rparr>)])"

text \<open>Lines 354-360: the lookup from a spell's name to the schools that hold it.\<close>

definition lookup_add ::
  "string \<Rightarrow> string \<Rightarrow> (string \<times> string list) list \<Rightarrow> (string \<times> string list) list" where
  "lookup_add school_key spell_name spell_lookup =
     (case map_of spell_lookup spell_name of
        None \<Rightarrow> AList.update spell_name [school_key] spell_lookup
      | Some found \<Rightarrow> AList.update spell_name (found @ [school_key]) spell_lookup)"

definition lookup_school ::
  "string \<times> school \<Rightarrow> (string \<times> string list) list \<Rightarrow> (string \<times> string list) list" where
  "lookup_school entry spell_lookup =
     (if fst entry = COMBO_SCHOOL then spell_lookup
      else fold (lookup_add (fst entry)) (spell_keys (snd entry)) spell_lookup)"

definition build_lookup :: "catalog \<Rightarrow> (string \<times> string list) list" where
  "build_lookup cat = fold lookup_school cat []"

text \<open>Lines 381-386: the update of an entry that exists.\<close>

definition merge_entry :: "spell \<Rightarrow> spell \<Rightarrow> py_error + spell" where
  "merge_entry spell_data current_entry =
     (case secondary_school spell_data of
        None \<Rightarrow> Inl KeyError
      | Some s \<Rightarrow>
          Inr (if \<not> truthy (en_url current_entry) \<and> truthy (en_url spell_data)
               then current_entry\<lparr>is_combo := Some True, secondary_school := Some s,
                                  en_url := en_url spell_data\<rparr>
               else current_entry\<lparr>is_combo := Some True, secondary_school := Some s\<rparr>))"

definition update_entry :: "catalog \<Rightarrow> string \<Rightarrow> string \<Rightarrow> spell \<Rightarrow> py_error + catalog" where
  "update_entry cat school_key nm spell_data =
     (case map_of cat school_key of
        None \<Rightarrow> Inl KeyError
      | Some sch \<Rightarrow>
          (case spells sch of
             None \<Rightarrow> Inl KeyError
           | Some sps \<Rightarrow>
               (case map_of sps nm of
                  None \<Rightarrow> Inl KeyError
                | Some current_entry \<Rightarrow>
                    (case merge_entry spell_data current_entry of
                       Inl e \<Rightarrow> Inl e
                     | Inr entry' \<Rightarrow>
                         Inr (AList.update school_key
                                (sch\<lparr>spells := Some (AList.update nm entry' sps)\<rparr>) cat)))))"

fun update_found :: "catalog \<Rightarrow> string list \<Rightarrow> string \<Rightarrow> spell \<Rightarrow> py_error + catalog" where
  "update_found cat [] nm spell_data = Inr cat"
| "update_found cat (school_key # found_schools) nm spell_data =
     (case update_entry cat school_key nm spell_data of
        Inl e \<Rightarrow> Inl e
      | Inr cat' \<Rightarrow> update_found cat' found_schools nm spell_data)"

text \<open>Lines 392 and 397: \<open>data["schools"][school_key]["spells"][name] = spell_data\<close>.\<close>

definition add_spell :: "catalog \<Rightarrow> string \<Rightarrow> string \<Rightarrow> spell \<Rightarrow> py_error + catalog" where
  "add_spell cat school_key nm spell_data =
     (case map_of cat school_key of
        None \<Rightarrow> Inl KeyError
      | Some sch \<Rightarrow>
          (case spells sch of
             None \<Rightarrow> Inl KeyError
           | Some sps \<Rightarrow>
               Inr (AList.update school_key
                      (sch\<lparr>spells := Some (AList.update nm spell_data sps)\<rparr>) cat)))"

definition crafted_school :: school where
  "crafted_school = \<lparr>s_ru_url = None, s_en_name = Some ''Crafted'', spells = Some []\<rparr>"

text \<open>Lines 371-397: the merge of one combo spell.\<close>

definition merge_combo ::
  "(string \<times> string list) list \<Rightarrow> string \<times> spell \<Rightarrow> catalog \<Rightarrow> py_error + catalog" where
  "merge_combo spell_lookup item cat =
     (case item of (nm, spell_data) \<Rightarrow>
        (case map_of spell_lookup nm of
           Some (school_key # found_schools) \<Rightarrow>
             update_found cat (school_key # found_schools) nm spell_data
         | _ \<Rightarrow>
             (case primary_school spell_data of
                Some primary \<Rightarrow>
                  if primary \<noteq> [] \<and> primary \<in> fst ` set cat
                  then add_spell cat primary nm spell_data
                  else add_spell
                         (if COMBO_SCHOOL \<notin> fst ` set cat
                          then AList.update COMBO_SCHOOL crafted_school cat else cat)
                         COMBO_SCHOOL nm spell_data
              | None \<Rightarrow>
                  add_spell
                    (if COMBO_SCHOOL \<notin> fst ` set cat
                     then AList.update COMBO_SCHOOL crafted_school cat else cat)
                    COMBO_SCHOOL nm spell_data)))"

fun merge_all ::
  "(string \<times> string list) list \<Rightarrow> spell_dict \<Rightarrow> catalog \<Rightarrow> py_error + catalog" where
  "merge_all spell_lookup [] cat = Inr cat"
| "merge_all spell_lookup (item # combo_spells) cat =
     (case merge_combo spell_lookup item cat of
        Inl e \<Rightarrow> Inl e
      | Inr cat' \<Rightarrow> merge_all spell_lookup combo_spells cat')"

text \<open>
  The pages and the name mapping the run works on, and \<open>main\<close> (lines 339-401): the
  document written to \<open>spells.json\<close>. The summary printed after the file is written
  reads \<open>s["spells"]\<close> of every school of the result.
\<close>

record site =
  mappings :: "string \<Rightarrow> string option"
  main_page :: "link list option"
  special_page :: "row list list option"
  combo_page :: "combo_table list option"

text \<open>Lines 347-350: the catalog after the general and the special listing.\<close>

definition listing_catalog :: "site \<Rightarrow> catalog" where
  "listing_catalog st =
     dict_update (dict_update [] (scrape_schools (mappings st) (main_page st)))
       (scrape_special_skills (mappings st) (special_page st))"

text \<open>Lines 363-367: the combo spells to merge.\<close>

definition combo_spells_of :: "site \<Rightarrow> spell_dict" where
  "combo_spells_of st =
     (case map_of (scrape_combo_skills (mappings st) (combo_page st)) COMBO_SCHOOL of
        None \<Rightarrow> []
      | Some combo_section \<Rightarrow> (case spells combo_section of None \<Rightarrow> [] | Some sps \<Rightarrow> sps))"

definition scrape_catalog :: "site \<Rightarrow> py_error + catalog" where
  "scrape_catalog st =
     (if scrape_combo_skills (mappings st) (combo_page st) \<noteq> []
      then merge_all (build_lookup (listing_catalog st)) (combo_spells_of st) (listing_catalog st)
      else Inr (listing_catalog st))"

definition scrape_main :: "site \<Rightarrow> py_error + document" where
  "scrape_main st =
     (case scrape_catalog st of
        Inl e \<Rightarrow> Inl e
      | Inr cat \<Rightarrow>
          Inr \<lparr>meta = Some [(''source'', MAIN_SKILLS_URL),
                            (''note'', ''Automatically scraped from Divinity Fandom Wiki (ru)'')],
               schools = Some cat\<rparr>)"

text \<open>The record stored for an identifier in a category, if any.\<close>

definition entry :: "catalog \<Rightarrow> string \<Rightarrow> string \<Rightarrow> spell option" where
  "entry cat school_key nm =
     (case map_of cat school_key of
        None \<Rightarrow> None
      | Some sch \<Rightarrow> (case spells sch of None \<Rightarrow> None | Some sps \<Rightarrow> map_of sps nm))"

text \<open>The categories that hold an identifier.\<close>

definition holders :: "catalog \<Rightarrow> string \<Rightarrow> string set" where
  "holders cat nm = set (filter (\<lambda>k. entry cat k nm \<noteq> None) (map fst cat))"

text \<open>Every category of the catalog has its \<open>"spells"\<close> key.\<close>

definition has_spells :: "catalog \<Rightarrow> bool" where
  "has_spells cat = (\<forall>k sch. map_of cat k = Some sch \<longrightarrow> spells sch \<noteq> None)"

text \<open>The entry after the update of lines 381-386, when there is an entry and the update returns.\<close>

definition merged_with :: "spell \<Rightarrow> spell option \<Rightarrow> spell option" where
  "merged_with sd cur =
     (case cur of
        None \<Rightarrow> None
      | Some c \<Rightarrow> (case merge_entry sd c of Inl e \<Rightarrow> None | Inr c' \<Rightarrow> Some c'))"

text \<open>\<open>spell_lookup.get(name)\<close>, the empty list standing for a missing name.\<close>

definition found_in :: "(string \<times> string list) list \<Rightarrow> string \<Rightarrow> string list" where
  "found_in lk nm = (case map_of lk nm of None \<Rightarrow> [] | Some fs \<Rightarrow> fs)"

text \<open>Lines 389-397: the category that receives a combo spell found nowhere, seen from the catalog before the merge.\<close>

definition dest :: "catalog \<Rightarrow> spell \<Rightarrow> string" where
  "dest cat0 sd =
     (case primary_school sd of
        None \<Rightarrow> COMBO_SCHOOL
      | Some p \<Rightarrow> if p \<noteq> [] \<and> p \<in> fst ` set cat0 then p else COMBO_SCHOOL)"

text \<open>The entry of a category and an identifier after the merge of the combo spells, described from the catalog before the merge.\<close>

definition merged_entry ::
  "(string \<times> string list) list \<Rightarrow> spell_dict \<Rightarrow> catalog \<Rightarrow> string \<Rightarrow> string \<Rightarrow> spell option" where
  "merged_entry lk combo cat0 k nm =
     (case map_of combo nm of
        None \<Rightarrow> entry cat0 k nm
      | Some sd \<Rightarrow>
          if found_in lk nm \<noteq> []
          then (if k \<in> set (found_in lk nm) then merged_with sd (entry cat0 k nm)
                else entry cat0 k nm)
          else (if k = dest cat0 sd then Some sd else entry cat0 k nm))"

text \<open>Some combo spell found nowhere goes to the combo bucket.\<close>

definition to_bucket :: "(string \<times> string list) list \<Rightarrow> spell_dict \<Rightarrow> catalog \<Rightarrow> bool" where
  "to_bucket lk combo cat0 =
     (\<exists>(nm, sd) \<in> set combo. found_in lk nm = [] \<and> dest cat0 sd = COMBO_SCHOOL)"

text \<open>The records of the listing passes carry no secondary school and no combo flag.\<close>

definition plain :: "spell \<Rightarrow> bool" where
  "plain e = (secondary_school e = None \<and> is_combo e = None)"

text \<open>A category as the listing passes build it: it has spells, all of them plain.\<close>

definition plain_school :: "school \<Rightarrow> bool" where
  "plain_school sch = (\<exists>sps. spells sch = Some sps \<and> (\<forall>x \<in> set sps. plain (snd x)))"

text \<open>The records of the combo listing carry a secondary school and the combo flag.\<close>

definition combo_like :: "spell \<Rightarrow> bool" where
  "combo_like sd = (secondary_school sd \<noteq> None \<and> is_combo sd = Some True)"

text \<open>
  Sample pages. A skill listed on the pages of two schools; a skill listed in two tables
  of one page under different tiers; two rows of one table that resolve to the same
  identifier, in both orders.
\<close>

definition teleport_row :: row where
  "teleport_row =
     SkillRow ''Teleportatsiya'' ''https://divinity.fandom.com/ru/wiki/T'' (Some ''Teleportation'')"

definition school_link :: "string \<Rightarrow> string \<Rightarrow> row list list \<Rightarrow> link" where
  "school_link school_name u tables =
     \<lparr>link_text = school_name, link_url = u, link_page = Some tables\<rparr>"

definition listing_site :: "link list \<Rightarrow> site" where
  "listing_site links =
     \<lparr>mappings = (\<lambda>ru. None), main_page = Some links, special_page = None, combo_page = None\<rparr>"


definition novice_table :: "row list" where
  "novice_table = [HeaderRow ''Novice'', teleport_row]"

definition adept_table :: "row list" where
  "adept_table = [HeaderRow ''Adept'', teleport_row]"

definition two_tier_tables :: "row list list" where
  "two_tier_tables = [novice_table, adept_table]"

definition two_tier_site :: site where
  "two_tier_site = listing_site [school_link AERO ''a'' two_tier_tables]"

definition teleport_alias :: row where
  "teleport_alias =
     SkillRow ''Perenos'' ''https://divinity.fandom.com/ru/wiki/P'' (Some ''Teleportation'')"

text \<open>
  A site with a combo page: one combo skill that the Aerotheurge page lists under its
  Russian name only, one that is new and declares a scraped school, and one whose first
  school is unknown.
\<close>

definition bubble_row :: row where
  "bubble_row = SkillRow ''Puzyr'' ''https://divinity.fandom.com/ru/wiki/B'' None"

definition combo_site :: "combo_row list \<Rightarrow> site" where
  "combo_site rows =
     \<lparr>mappings = (\<lambda>ru. None),
      main_page = Some [school_link AERO ''a'' [[HeaderRow ''Novice'', bubble_row]]],
      special_page = None,
      combo_page = Some [\<lparr>table_text = COMBO_MARK, combo_rows = rows\<rparr>]\<rparr>"

definition sample_combo_rows :: "combo_row list" where
  "sample_combo_rows =
     [ComboRow ''Vozdushnyi puzyr'' ''https://divinity.fandom.com/ru/wiki/VB'' AERO WARFARE
        (Some ''Puzyr''),
      ComboRow ''Isparenie'' ''https://divinity.fandom.com/ru/wiki/V'' AERO POLY (Some ''Vaporize''),
      ComboRow ''Dym'' ''https://divinity.fandom.com/ru/wiki/S'' ''?'' SCOUNDREL (Some ''Smoke Cover'')]"

text \<open>The entry of a category and an identifier in the result of a run, if the run returns.\<close>

definition result_entry :: "py_error + catalog \<Rightarrow> string \<Rightarrow> string \<Rightarrow> spell option" where
  "result_entry r k nm = (case r of Inl e \<Rightarrow> None | Inr cat \<Rightarrow> entry cat k nm)"

definition no_mappings :: "string \<Rightarrow> string option" where
  "no_mappings ru = None"

text \<open>
  What a row of a skill table stores under the tier \<open>t\<close>: nothing for a header, a row
  without a name link or a name of fewer than two characters, otherwise the identifier
  and the record of lines 151-158.
\<close>

fun row_entry ::
  "(string \<Rightarrow> string option) \<Rightarrow> string \<Rightarrow> string \<Rightarrow> row \<Rightarrow> (string \<times> spell) option" where
  "row_entry mp default_school t (SkillRow ru ru_u fetched) =
     (if ru = [] \<or> py_len ru < 2 then None
      else Some (resolve_en_name mp ru fetched,
                 listing_record ru ru_u (resolve_en_name mp ru fetched) t default_school))"
| "row_entry mp default_school t r = None"

fun is_header :: "row \<Rightarrow> bool" where
  "is_header (HeaderRow tx) = True"
| "is_header r = False"

definition alias_first_site :: site where
  "alias_first_site = listing_site [school_link AERO ''a'' [[teleport_alias, teleport_row]]]"

definition alias_last_site :: site where
  "alias_last_site = listing_site [school_link AERO ''a'' [[teleport_row, teleport_alias]]]"

text \<open>
  The tier in force after the rows of a table, from the tier before them (lines 93-98):
  only a header of more than three characters changes it.
\<close>

fun tier_after :: "row list \<Rightarrow> string \<Rightarrow> string" where
  "tier_after [] current_tier = current_tier"
| "tier_after (HeaderRow tx # rows) current_tier =
     tier_after rows (if tx \<noteq> [] \<and> py_len tx > 3 then tx else current_tier)"
| "tier_after (OtherRow # rows) current_tier = tier_after rows current_tier"
| "tier_after (SkillRow ru ru_u fetched # rows) current_tier = tier_after rows current_tier"

text \<open>The identifiers under which the rows of a skill table are stored, in order.\<close>

definition row_ids :: "(string \<Rightarrow> string option) \<Rightarrow> row list \<Rightarrow> string list" where
  "row_ids mp rows = map fst (List.map_filter (row_entry mp [] []) rows)"

text \<open>
  What a row of a combo table stores: nothing for a row with fewer than three cells or
  without an anchor, otherwise the identifier and the record of lines 307-316.
\<close>

fun combo_entry :: "(string \<Rightarrow> string option) \<Rightarrow> combo_row \<Rightarrow> (string \<times> spell) option" where
  "combo_entry mp ComboOther = None"
| "combo_entry mp (ComboRow ru ru_u school1 school2 fetched) =
     Some (resolve_en_name mp ru fetched,
           combo_record ru ru_u (resolve_en_name mp ru fetched) school1 school2)"

text \<open>
  The rows of the combo page in the order in which they are read: those of the tables
  that carry the mark (lines 248-250), table after table.
\<close>

definition page_rows :: "combo_table list \<Rightarrow> combo_row list" where
  "page_rows tables =
     concat (map combo_rows (filter (\<lambda>table. contains (table_text table) COMBO_MARK) tables))"

definition combo_ids :: "(string \<Rightarrow> string option) \<Rightarrow> combo_row list \<Rightarrow> string list" where
  "combo_ids mp rows = map fst (List.map_filter (combo_entry mp) rows)"

text \<open>
  More sample pages. A skill that the Aerotheurge page lists under its English name only,
  so that no English URL is guessed, and that the page of the special skills lists with a
  Russian name, so that one is.
\<close>

definition untranslated_row :: row where
  "untranslated_row = SkillRow ''Teleportation'' ''https://divinity.fandom.com/ru/wiki/T'' None"

definition general_special_site :: site where
  "general_special_site =
     \<lparr>mappings = (\<lambda>ru. None),
      main_page = Some [school_link AERO ''a'' [[untranslated_row]]],
      special_page = Some [[teleport_row]],
      combo_page = None\<rparr>"

text \<open>A school page and a special page with one table of one tier and the given rows.\<close>

definition rows_site :: "row list \<Rightarrow> site" where
  "rows_site rows = listing_site [school_link AERO ''a'' [HeaderRow ''Novice'' # rows]]"

definition special_rows_site :: "row list \<Rightarrow> site" where
  "special_rows_site rows =
     \<lparr>mappings = (\<lambda>ru. None), main_page = None,
      special_page = Some [HeaderRow ''Novice'' # rows], combo_page = None\<rparr>"

section \<open>batch_fetch_infoboxes.py\<close>






























section \<open>Contrast assignment: properties\<close>

lemma elemental_not_class_style: "a \<in> set elemental \<Longrightarrow> b \<in> set class_style \<Longrightarrow> a \<noteq> b"
  unfolding elemental_def class_style_def AERO_def GEO_def HYDRO_def PYRO_def
    WARFARE_def HUNT_def SCOUNDREL_def POLY_def SUMMON_def NECRO_def
  by auto

lemma DUAL_MAP_entries:
  "(k, cs) \<in> set DUAL_MAP \<Longrightarrow> \<exists>a b. cs = [a, b] \<and> a \<in> set elemental \<and> b \<in> set class_style"
  unfolding DUAL_MAP_def elemental_def class_style_def by auto

lemma DUAL_MAP_lookup:
  assumes "map_of DUAL_MAP name = Some cs"
  shows "\<exists>a b. cs = [a, b] \<and> a \<noteq> b \<and> a \<in> set elemental \<and> b \<in> set class_style"
proof -
  from assms have "(name, cs) \<in> set DUAL_MAP" by (rule map_of_SomeD)
  then obtain a b where "cs = [a, b]" "a \<in> set elemental" "b \<in> set class_style"
    using DUAL_MAP_entries by blast
  then show ?thesis using elemental_not_class_style by blast
qed

lemma target_secondary_pair:
  "a \<noteq> b \<Longrightarrow> target_secondary [a, b] p = Inr (if p = Some b then a else b)"
  by (cases p) (auto simp: target_secondary_def)

lemma assign_secondary_pair:
  assumes "a \<noteq> b"
  shows "assign_secondary [a, b] name sp =
           (let t = (if primary_school sp = Some b then a else b)
            in if secondary_school sp \<noteq> Some t
               then Inr (sp\<lparr>secondary_school := Some t, is_combo := Some True\<rparr>,
                         [Fixed name (primary_school sp) t], 1)
               else Inr (sp, [], 0))"
  by (simp add: assign_secondary_def target_secondary_pair[OF assms] Let_def)

lemma assign_secondary_again:
  assumes "assign_secondary cs name sp = Inr (sp', out, n)"
  shows "assign_secondary cs name sp' = Inr (sp', [], 0)"
  using assms
  by (auto simp: assign_secondary_def split: sum.splits if_splits)

lemma assign_secondary_keeps:
  assumes "assign_secondary cs name sp = Inr (sp', out, n)"
  shows "en_name sp' = en_name sp \<and> primary_school sp' = primary_school sp"
  using assms
  by (auto simp: assign_secondary_def split: sum.splits if_splits)

lemma fix_spell_again:
  assumes "fix_spell key sp = Inr (sp', out, n)"
  shows "fix_spell key sp' = Inr (sp', [], 0)"
proof (cases "map_of DUAL_MAP (get_en_name key sp)")
  case None
  with assms show ?thesis by (simp add: fix_spell_def get_en_name_def)
next
  case (Some cs)
  with assms have a: "assign_secondary cs (get_en_name key sp) sp = Inr (sp', out, n)"
    by (simp add: fix_spell_def)
  from assign_secondary_keeps[OF a] have "get_en_name key sp' = get_en_name key sp"
    by (simp add: get_en_name_def)
  with Some assign_secondary_again[OF a] show ?thesis by (simp add: fix_spell_def)
qed

lemma fix_spell_total: "\<exists>sp' out n. fix_spell key sp = Inr (sp', out, n)"
proof (cases "map_of DUAL_MAP (get_en_name key sp)")
  case None
  then show ?thesis by (simp add: fix_spell_def)
next
  case (Some cs)
  from DUAL_MAP_lookup[OF Some] obtain a b where "cs = [a, b]" "a \<noteq> b" by blast
  with Some show ?thesis
    by (simp add: fix_spell_def assign_secondary_pair Let_def)
qed

lemma fix_spells_total: "\<exists>sps' out n. fix_spells sps = Inr (sps', out, n)"
proof (induction sps)
  case Nil
  show ?case by simp
next
  case (Cons x sps)
  obtain key sp where x: "x = (key, sp)" by (cases x)
  from fix_spell_total[of key sp] Cons show ?case
    by (auto simp: x)
qed

lemma fix_spells_again:
  "fix_spells sps = Inr (sps', out, n) \<Longrightarrow> fix_spells sps' = Inr (sps', [], 0)"
proof (induction sps arbitrary: sps' out n)
  case Nil
  then show ?case by simp
next
  case (Cons x sps)
  obtain key sp where x: "x = (key, sp)" by (cases x)
  from Cons.prems obtain sp1 o1 n1 r1 o2 n2 where
    s: "fix_spell key sp = Inr (sp1, o1, n1)" and r: "fix_spells sps = Inr (r1, o2, n2)"
    and e: "sps' = (key, sp1) # r1"
    by (auto simp: x split: sum.splits)
  from fix_spell_again[OF s] Cons.IH[OF r] show ?case
    by (simp add: e)
qed

lemma fix_spells_keys:
  "fix_spells sps = Inr (sps', out, n) \<Longrightarrow> map fst sps' = map fst sps"
proof (induction sps arbitrary: sps' out n)
  case Nil
  then show ?case by simp
next
  case (Cons x sps)
  obtain key sp where x: "x = (key, sp)" by (cases x)
  from Cons.prems obtain sp1 o1 n1 r1 o2 n2 where
    r: "fix_spells sps = Inr (r1, o2, n2)" and e: "sps' = (key, sp1) # r1"
    by (auto simp: x split: sum.splits)
  from Cons.IH[OF r] show ?case by (simp add: e x)
qed

lemma fix_school_total: "\<exists>sch' out n. fix_school sch = Inr (sch', out, n)"
proof (cases "spells sch")
  case None
  then show ?thesis by (simp add: fix_school_def)
next
  case (Some sps)
  from fix_spells_total[of sps] obtain r out n where "fix_spells sps = Inr (r, out, n)" by blast
  with Some show ?thesis by (simp add: fix_school_def)
qed

lemma fix_school_again:
  assumes "fix_school sch = Inr (sch', out, n)"
  shows "fix_school sch' = Inr (sch', [], 0)"
proof (cases "spells sch")
  case None
  with assms show ?thesis by (simp add: fix_school_def)
next
  case (Some sps)
  with assms obtain r where r: "fix_spells sps = Inr (r, out, n)" and e: "sch' = sch\<lparr>spells := Some r\<rparr>"
    by (auto simp: fix_school_def split: sum.splits)
  from fix_spells_again[OF r] show ?thesis by (simp add: fix_school_def e)
qed

lemma fix_school_keys:
  assumes "fix_school sch = Inr (sch', out, n)"
  shows "spell_keys sch' = spell_keys sch"
proof (cases "spells sch")
  case None
  with assms show ?thesis by (simp add: fix_school_def)
next
  case (Some sps)
  with assms obtain r where r: "fix_spells sps = Inr (r, out, n)" and e: "sch' = sch\<lparr>spells := Some r\<rparr>"
    by (auto simp: fix_school_def split: sum.splits)
  from fix_spells_keys[OF r] Some show ?thesis by (simp add: spell_keys_def e)
qed

lemma fix_schools_total: "\<exists>cat' out n. fix_schools cat = Inr (cat', out, n)"
proof (induction cat)
  case Nil
  show ?case by simp
next
  case (Cons x cat)
  obtain k sch where x: "x = (k, sch)" by (cases x)
  from fix_school_total[of sch] Cons show ?case by (auto simp: x)
qed

lemma fix_schools_again:
  "fix_schools cat = Inr (cat', out, n) \<Longrightarrow> fix_schools cat' = Inr (cat', [], 0)"
proof (induction cat arbitrary: cat' out n)
  case Nil
  then show ?case by simp
next
  case (Cons x cat)
  obtain k sch where x: "x = (k, sch)" by (cases x)
  from Cons.prems obtain s1 o1 n1 r1 o2 n2 where
    s: "fix_school sch = Inr (s1, o1, n1)" and r: "fix_schools cat = Inr (r1, o2, n2)"
    and e: "cat' = (k, s1) # r1"
    by (auto simp: x split: sum.splits)
  from fix_school_again[OF s] Cons.IH[OF r] show ?case by (simp add: e)
qed

lemma fix_schools_members:
  "fix_schools cat = Inr (cat', out, n) \<Longrightarrow> members cat' = members cat"
proof (induction cat arbitrary: cat' out n)
  case Nil
  then show ?case by simp
next
  case (Cons x cat)
  obtain k sch where x: "x = (k, sch)" by (cases x)
  from Cons.prems obtain s1 o1 n1 r1 o2 n2 where
    s: "fix_school sch = Inr (s1, o1, n1)" and r: "fix_schools cat = Inr (r1, o2, n2)"
    and e: "cat' = (k, s1) # r1"
    by (auto simp: x split: sum.splits)
  from fix_school_keys[OF s] Cons.IH[OF r] show ?case by (simp add: e x members_def)
qed

lemma apply_main_total: "\<exists>doc' out. apply_main doc = Inr (doc', out)"
proof (cases doc)
  case None
  then show ?thesis by (simp add: apply_main_def)
next
  case (Some data)
  show ?thesis
  proof (cases "schools data")
    case None
    with Some show ?thesis by (simp add: apply_main_def)
  next
    case (Some cat)
    from fix_schools_total[of cat] obtain cat' out n where "fix_schools cat = Inr (cat', out, n)"
      by blast
    with Some \<open>doc = Some data\<close> show ?thesis by (simp add: apply_main_def)
  qed
qed

lemma apply_main_again:
  assumes "apply_main doc = Inr (doc', out)"
  shows "apply_main doc' = Inr (doc', case doc' of None \<Rightarrow> [NotFound] | Some d \<Rightarrow> [Saved 0])"
proof (cases doc)
  case None
  with assms show ?thesis by (auto simp: apply_main_def)
next
  case (Some data)
  show ?thesis
  proof (cases "schools data")
    case None
    with Some assms show ?thesis by (auto simp: apply_main_def)
  next
    case (Some cat)
    with \<open>doc = Some data\<close> assms obtain cat' o1 n where
      c: "fix_schools cat = Inr (cat', o1, n)" and e: "doc' = Some (data\<lparr>schools := Some cat'\<rparr>)"
      by (auto simp: apply_main_def split: sum.splits)
    from fix_schools_again[OF c] show ?thesis by (simp add: apply_main_def e)
  qed
qed

lemma apply_main_members:
  assumes "apply_main doc = Inr (doc', out)"
  shows "file_members doc' = file_members doc"
proof (cases doc)
  case None
  with assms show ?thesis by (auto simp: apply_main_def)
next
  case (Some data)
  show ?thesis
  proof (cases "schools data")
    case None
    with Some assms show ?thesis by (auto simp: apply_main_def)
  next
    case (Some cat)
    with \<open>doc = Some data\<close> assms obtain cat' o1 n where
      c: "fix_schools cat = Inr (cat', o1, n)" and e: "doc' = Some (data\<lparr>schools := Some cat'\<rparr>)"
      by (auto simp: apply_main_def split: sum.splits)
    from fix_schools_members[OF c] Some \<open>doc = Some data\<close> show ?thesis
      by (simp add: file_members_def e)
  qed
qed

lemma PYRO_NECRO: "PYRO \<noteq> NECRO"
  by (simp add: PYRO_def NECRO_def)

lemma HYDRO_PYRO_NECRO: "HYDRO \<noteq> PYRO \<and> HYDRO \<noteq> NECRO"
  by (simp add: HYDRO_def PYRO_def NECRO_def)

lemma lookup_corpse_explosion: "map_of DUAL_MAP ''Corpse Explosion'' = Some [PYRO, NECRO]"
  by (simp add: DUAL_MAP_def)

text \<open>
  C1. Running the contrast assignment a second time changes nothing. For one spell and any
  pair of two different schools the assignment returns, and a second call on its result
  returns the same spell, prints nothing and counts no change. For the whole run: the
  script returns on every file, and run again on the file it wrote it writes the same
  file and reports 0 contrast fixes.
\<close>

theorem contrast_idempotent:
  "(a \<noteq> b \<longrightarrow>
      (\<exists>sp' out n. assign_secondary [a, b] name sp = Inr (sp', out, n)
         \<and> assign_secondary [a, b] name sp' = Inr (sp', [], 0)))
   \<and> (\<exists>doc' out. apply_main doc = Inr (doc', out)
         \<and> apply_main doc' =
             Inr (doc', case doc' of None \<Rightarrow> [NotFound] | Some d \<Rightarrow> [Saved 0]))"
proof (intro conjI impI)
  assume ab: "a \<noteq> b"
  obtain sp' out n where r: "assign_secondary [a, b] name sp = Inr (sp', out, n)"
    by (cases "assign_secondary [a, b] name sp")
       (auto simp: assign_secondary_pair[OF ab] Let_def split: if_splits)
  from assign_secondary_again[OF r] r
  show "\<exists>sp' out n. assign_secondary [a, b] name sp = Inr (sp', out, n)
         \<and> assign_secondary [a, b] name sp' = Inr (sp', [], 0)"
    by blast
next
  from apply_main_total[of doc] obtain doc' out where r: "apply_main doc = Inr (doc', out)"
    by blast
  from apply_main_again[OF r] r
  show "\<exists>doc' out. apply_main doc = Inr (doc', out)
         \<and> apply_main doc' =
             Inr (doc', case doc' of None \<Rightarrow> [NotFound] | Some d \<Rightarrow> [Saved 0])"
    by blast
qed

theorem contrast_idempotent_witness:
  "PYRO \<noteq> NECRO
   \<and> (\<exists>sp' out n.
         assign_secondary [PYRO, NECRO] ''Corpse Explosion'' corpse_explosion = Inr (sp', out, n)
         \<and> assign_secondary [PYRO, NECRO] ''Corpse Explosion'' sp' = Inr (sp', [], 0))
   \<and> (\<exists>doc' out.
         apply_main (sample_file [(''Corpse Explosion'', corpse_explosion)]) = Inr (doc', out)
         \<and> apply_main doc' =
             Inr (doc', case doc' of None \<Rightarrow> [NotFound] | Some d \<Rightarrow> [Saved 0]))"
  using contrast_idempotent
    [of PYRO NECRO "''Corpse Explosion''" corpse_explosion
        "sample_file [(''Corpse Explosion'', corpse_explosion)]"]
    PYRO_NECRO
  by simp

text \<open>
  C2. For a pair of two different schools, a stored primary that is the first member gives
  the second as target and the reverse. The assignment returns, keeps the primary, leaves
  the secondary equal to the other member when the primary is in the pair, and in every
  case (the fallback included) leaves a secondary that differs from the primary. The same
  holds for every spell whose name is in the built-in table.
\<close>

theorem contrast_correct:
  assumes "a \<noteq> b"
  shows "target_secondary [a, b] (Some a) = Inr b
       \<and> target_secondary [a, b] (Some b) = Inr a
       \<and> (\<exists>sp' out n. assign_secondary [a, b] name sp = Inr (sp', out, n)
             \<and> primary_school sp' = primary_school sp
             \<and> (primary_school sp = Some a \<longrightarrow> secondary_school sp' = Some b)
             \<and> (primary_school sp = Some b \<longrightarrow> secondary_school sp' = Some a)
             \<and> secondary_school sp' \<noteq> primary_school sp')
       \<and> (get_en_name key sp \<in> fst ` set DUAL_MAP \<longrightarrow>
             (\<exists>sp' out n. fix_spell key sp = Inr (sp', out, n)
                \<and> primary_school sp' = primary_school sp
                \<and> secondary_school sp' \<noteq> primary_school sp'))"
proof (intro conjI impI)
  show "target_secondary [a, b] (Some a) = Inr b"
    using assms by (simp add: target_secondary_pair)
  show "target_secondary [a, b] (Some b) = Inr a"
    using assms by (simp add: target_secondary_pair)
  show "\<exists>sp' out n. assign_secondary [a, b] name sp = Inr (sp', out, n)
             \<and> primary_school sp' = primary_school sp
             \<and> (primary_school sp = Some a \<longrightarrow> secondary_school sp' = Some b)
             \<and> (primary_school sp = Some b \<longrightarrow> secondary_school sp' = Some a)
             \<and> secondary_school sp' \<noteq> primary_school sp'"
    using assms by (auto simp: assign_secondary_pair Let_def)
next
  assume "get_en_name key sp \<in> fst ` set DUAL_MAP"
  then obtain cs where cs: "map_of DUAL_MAP (get_en_name key sp) = Some cs"
    by (metis domD dom_map_of_conv_image_fst)
  from DUAL_MAP_lookup[OF cs] obtain c d where cd: "cs = [c, d]" "c \<noteq> d" by blast
  have "fix_spell key sp = assign_secondary [c, d] (get_en_name key sp) sp"
    using cs cd by (simp add: fix_spell_def)
  then show "\<exists>sp' out n. fix_spell key sp = Inr (sp', out, n)
                \<and> primary_school sp' = primary_school sp
                \<and> secondary_school sp' \<noteq> primary_school sp'"
    using cd(2) by (auto simp: assign_secondary_pair Let_def)
qed

theorem contrast_correct_witness:
  "PYRO \<noteq> NECRO
   \<and> target_secondary [PYRO, NECRO] (Some PYRO) = Inr NECRO
   \<and> target_secondary [PYRO, NECRO] (Some NECRO) = Inr PYRO
   \<and> primary_school corpse_explosion = Some PYRO
   \<and> (\<exists>sp' out n.
         assign_secondary [PYRO, NECRO] ''Corpse Explosion'' corpse_explosion = Inr (sp', out, n)
         \<and> secondary_school sp' = Some NECRO \<and> secondary_school sp' \<noteq> primary_school sp')
   \<and> get_en_name ''Corpse Explosion'' corpse_explosion \<in> fst ` set DUAL_MAP
   \<and> (\<exists>sp' out n. fix_spell ''Corpse Explosion'' corpse_explosion = Inr (sp', out, n)
         \<and> secondary_school sp' \<noteq> primary_school sp')"
proof -
  have m: "get_en_name ''Corpse Explosion'' corpse_explosion \<in> fst ` set DUAL_MAP"
    using lookup_corpse_explosion
    by (metis corpse_explosion_def domI dom_map_of_conv_image_fst get_en_name_def
        option.simps(5) spell.select_convs(3))
  have p: "primary_school corpse_explosion = Some PYRO"
    by (simp add: corpse_explosion_def)
  from contrast_correct
    [OF PYRO_NECRO, of "''Corpse Explosion''" corpse_explosion "''Corpse Explosion''"] m p
  show ?thesis using PYRO_NECRO by auto
qed

text \<open>
  C10. When the stored secondary school already equals the computed target, the
  assignment returns the spell itself, prints nothing and counts nothing: no field
  changes, and \<open>is_combo\<close> is not set.
\<close>

theorem contrast_frame:
  assumes "target_secondary cs (primary_school sp) = Inr t"
    and "secondary_school sp = Some t"
  shows "assign_secondary cs name sp = Inr (sp, [], 0)
       \<and> (map_of DUAL_MAP (get_en_name key sp) = Some cs \<longrightarrow> fix_spell key sp = Inr (sp, [], 0))"
  using assms by (simp add: assign_secondary_def fix_spell_def)

theorem contrast_frame_witness:
  "target_secondary [PYRO, NECRO] (primary_school settled_spell) = Inr NECRO
   \<and> secondary_school settled_spell = Some NECRO
   \<and> is_combo settled_spell = None
   \<and> map_of DUAL_MAP (get_en_name ''Corpse Explosion'' settled_spell) = Some [PYRO, NECRO]
   \<and> assign_secondary [PYRO, NECRO] ''Corpse Explosion'' settled_spell = Inr (settled_spell, [], 0)
   \<and> fix_spell ''Corpse Explosion'' settled_spell = Inr (settled_spell, [], 0)
   \<and> apply_main (sample_file [(''Corpse Explosion'', settled_spell)]) =
       Inr (sample_file [(''Corpse Explosion'', settled_spell)], [Saved 0])"
proof -
  have t: "target_secondary [PYRO, NECRO] (primary_school settled_spell) = Inr NECRO"
    using PYRO_NECRO
    by (simp add: target_secondary_pair settled_spell_def corpse_explosion_def)
  have s: "secondary_school settled_spell = Some NECRO"
    by (simp add: settled_spell_def)
  have m: "map_of DUAL_MAP (get_en_name ''Corpse Explosion'' settled_spell) = Some [PYRO, NECRO]"
    using lookup_corpse_explosion
    by (simp add: get_en_name_def settled_spell_def corpse_explosion_def)
  have c: "is_combo settled_spell = None"
    by (simp add: settled_spell_def corpse_explosion_def)
  from contrast_frame[OF t s, of "''Corpse Explosion''" "''Corpse Explosion''"] t s m c
  show ?thesis by (simp add: apply_main_def sample_file_def pyro_school_def fix_school_def)
qed

text \<open>
  C3, as stated, fails: Corpse Explosion is declared with the pair of Pyrokinetic and
  Necromancer; stored with the primary school Hydrosophist (not in the pair) and the
  secondary Necromancer, the run leaves it as it is and prints nothing: no diagnostic. The
  fallback target is Necromancer, the second listed and class-style member, not the
  elemental Pyrokinetic.
\<close>

theorem fallback_policy_counterexample:
  "map_of DUAL_MAP (get_en_name ''Corpse Explosion'' inconsistent_spell) = Some [PYRO, NECRO]
   \<and> primary_school inconsistent_spell = Some HYDRO
   \<and> HYDRO \<notin> set [PYRO, NECRO]
   \<and> PYRO \<in> set elemental \<and> NECRO \<in> set class_style
   \<and> target_secondary [PYRO, NECRO] (Some HYDRO) = Inr NECRO
   \<and> fix_spell ''Corpse Explosion'' inconsistent_spell = Inr (inconsistent_spell, [], 0)"
proof -
  have m: "map_of DUAL_MAP (get_en_name ''Corpse Explosion'' inconsistent_spell) = Some [PYRO, NECRO]"
    using lookup_corpse_explosion
    by (simp add: get_en_name_def inconsistent_spell_def corpse_explosion_def)
  have t: "target_secondary [PYRO, NECRO] (Some HYDRO) = Inr NECRO"
    using HYDRO_PYRO_NECRO by (simp add: target_secondary_def)
  have f: "fix_spell ''Corpse Explosion'' inconsistent_spell = Inr (inconsistent_spell, [], 0)"
    using m t by (simp add: fix_spell_def assign_secondary_def inconsistent_spell_def)
  show ?thesis
    using m t f HYDRO_PYRO_NECRO
    by (simp add: inconsistent_spell_def elemental_def class_style_def)
qed

text \<open>
  C3, amended. For a spell whose stored primary school is neither member of its pair, the
  target secondary is the second listed member of the pair, which in the built-in table is
  the class-style member (the element is listed first). The assignment returns; it prints
  the ordinary line of a fix, and counts it, exactly when the stored secondary differs
  from that target, and otherwise prints nothing and changes nothing.
\<close>

theorem fallback_second_member:
  assumes "primary_school sp \<noteq> Some a" and "primary_school sp \<noteq> Some b"
  shows "target_secondary [a, b] (primary_school sp) = Inr b
       \<and> assign_secondary [a, b] name sp =
           (if secondary_school sp = Some b then Inr (sp, [], 0)
            else Inr (sp\<lparr>secondary_school := Some b, is_combo := Some True\<rparr>,
                      [Fixed name (primary_school sp) b], 1))
       \<and> (map_of DUAL_MAP name = Some [a, b] \<longrightarrow> a \<in> set elemental \<and> b \<in> set class_style)"
proof -
  have t: "target_secondary [a, b] (primary_school sp) = Inr b"
    using assms by (cases "primary_school sp") (auto simp: target_secondary_def)
  have "map_of DUAL_MAP name = Some [a, b] \<longrightarrow> a \<in> set elemental \<and> b \<in> set class_style"
    using DUAL_MAP_lookup[of name "[a, b]"] by auto
  with t show ?thesis by (simp add: assign_secondary_def)
qed

theorem fallback_second_member_witness:
  "primary_school (corpse_explosion\<lparr>primary_school := Some HYDRO\<rparr>) \<noteq> Some PYRO
   \<and> primary_school (corpse_explosion\<lparr>primary_school := Some HYDRO\<rparr>) \<noteq> Some NECRO
   \<and> map_of DUAL_MAP ''Corpse Explosion'' = Some [PYRO, NECRO]
   \<and> target_secondary [PYRO, NECRO] (Some HYDRO) = Inr NECRO
   \<and> assign_secondary [PYRO, NECRO] ''Corpse Explosion''
        (corpse_explosion\<lparr>primary_school := Some HYDRO\<rparr>) =
       Inr (corpse_explosion\<lparr>primary_school := Some HYDRO, secondary_school := Some NECRO,
              is_combo := Some True\<rparr>,
            [Fixed ''Corpse Explosion'' (Some HYDRO) NECRO], 1)
   \<and> NECRO \<in> set class_style"
proof -
  have h: "primary_school (corpse_explosion\<lparr>primary_school := Some HYDRO\<rparr>) \<noteq> Some PYRO"
      "primary_school (corpse_explosion\<lparr>primary_school := Some HYDRO\<rparr>) \<noteq> Some NECRO"
    using HYDRO_PYRO_NECRO by simp_all
  from fallback_second_member[OF h, of "''Corpse Explosion''"] h lookup_corpse_explosion
  show ?thesis by (simp add: corpse_explosion_def)
qed

text \<open>
  C8, as stated, fails: Corpse Explosion is an entry of the pair table; run on a catalog
  whose Pyrokinetic category holds no spell, the script writes the catalog back as it was
  and reports 0 fixes. No record is created.
\<close>

theorem orphan_creation_counterexample:
  "map_of DUAL_MAP ''Corpse Explosion'' = Some [PYRO, NECRO]
   \<and> file_members (sample_file []) = [(PYRO, [])]
   \<and> apply_main (sample_file []) = Inr (sample_file [], [Saved 0])"
  using lookup_corpse_explosion
  by (simp add: apply_main_def sample_file_def pyro_school_def fix_school_def
      file_members_def members_def spell_keys_def)

text \<open>
  C8, amended. The contrast assignment visits the spells stored in the catalog and looks
  each up in the pair table; an entry of the table whose identifier is absent from the
  catalog is skipped. The run returns and every category holds the same identifiers, in
  the same order, as before: no record is created.
\<close>

theorem contrast_creates_nothing:
  "\<exists>doc' out. apply_main doc = Inr (doc', out) \<and> file_members doc' = file_members doc"
proof -
  from apply_main_total[of doc] obtain doc' out where r: "apply_main doc = Inr (doc', out)"
    by blast
  from apply_main_members[OF r] r show ?thesis by blast
qed

theorem contrast_creates_nothing_witness:
  "\<exists>doc' out. apply_main (sample_file [(''Corpse Explosion'', corpse_explosion)]) = Inr (doc', out)
     \<and> file_members doc' = [(PYRO, [''Corpse Explosion''])]"
  using contrast_creates_nothing [of "sample_file [(''Corpse Explosion'', corpse_explosion)]"]
  by (simp add: file_members_def sample_file_def members_def spell_keys_def pyro_school_def)

section \<open>The merge of the combo listing: what each entry becomes\<close>

lemma keys_dom: "k \<in> fst ` set al \<longleftrightarrow> map_of al k \<noteq> None"
  by (simp add: map_of_eq_None_iff)

lemma holders_eq: "holders cat nm = {k. entry cat k nm \<noteq> None}"
proof -
  have "\<And>k. entry cat k nm \<noteq> None \<Longrightarrow> k \<in> fst ` set cat"
    by (auto simp: entry_def keys_dom split: option.splits)
  then show ?thesis by (auto simp: holders_def)
qed

lemma entry_update:
  "entry (AList.update k (sch\<lparr>spells := Some sps\<rparr>) cat) k' nm =
     (if k' = k then map_of sps nm else entry cat k' nm)"
  by (simp add: entry_def update_conv')

lemma add_spell_entry:
  assumes "add_spell cat k nm sd = Inr cat'"
  shows "entry cat' k' nm' = (if k' = k \<and> nm' = nm then Some sd else entry cat k' nm')"
    and "fst ` set cat' = fst ` set cat"
    and "has_spells cat \<Longrightarrow> has_spells cat'"
proof -
  from assms obtain sch sps where
    s: "map_of cat k = Some sch" "spells sch = Some sps"
    and c: "cat' = AList.update k (sch\<lparr>spells := Some (AList.update nm sd sps)\<rparr>) cat"
    by (auto simp: add_spell_def split: option.splits)
  show "entry cat' k' nm' = (if k' = k \<and> nm' = nm then Some sd else entry cat k' nm')"
    using s by (simp add: c entry_update update_conv') (simp add: entry_def)
  show "fst ` set cat' = fst ` set cat"
    using s(1) by (auto simp: c dom_update keys_dom)
  show "has_spells cat \<Longrightarrow> has_spells cat'"
    by (auto simp: c has_spells_def update_conv' split: if_splits)
qed

lemma add_spell_ok:
  assumes "map_of cat k = Some sch" "spells sch \<noteq> None"
  shows "\<exists>cat'. add_spell cat k nm sd = Inr cat'"
  using assms by (auto simp: add_spell_def split: option.splits)

lemma merge_entry_again:
  "merge_entry sd cur = Inr e \<Longrightarrow> merge_entry sd e = Inr e"
  by (cases "en_url cur"; cases "en_url sd")
     (auto simp: merge_entry_def split: option.splits if_splits)

lemma update_entry_entry:
  assumes "update_entry cat k nm sd = Inr cat'"
  shows "\<exists>cur e. entry cat k nm = Some cur \<and> merge_entry sd cur = Inr e
           \<and> (\<forall>k' nm'. entry cat' k' nm' = (if k' = k \<and> nm' = nm then Some e else entry cat k' nm'))"
    and "fst ` set cat' = fst ` set cat"
    and "has_spells cat \<Longrightarrow> has_spells cat'"
proof -
  from assms obtain sch sps cur e where
    s: "map_of cat k = Some sch" "spells sch = Some sps" "map_of sps nm = Some cur"
      "merge_entry sd cur = Inr e"
    and c: "cat' = AList.update k (sch\<lparr>spells := Some (AList.update nm e sps)\<rparr>) cat"
    by (auto simp: update_entry_def split: option.splits sum.splits)
  have "entry cat k nm = Some cur" using s by (simp add: entry_def)
  moreover have "\<forall>k' nm'. entry cat' k' nm' = (if k' = k \<and> nm' = nm then Some e else entry cat k' nm')"
    using s by (simp add: c entry_update update_conv') (simp add: entry_def)
  ultimately show "\<exists>cur e. entry cat k nm = Some cur \<and> merge_entry sd cur = Inr e
           \<and> (\<forall>k' nm'. entry cat' k' nm' = (if k' = k \<and> nm' = nm then Some e else entry cat k' nm'))"
    using s(4) by blast
  show "fst ` set cat' = fst ` set cat"
    using s(1) by (auto simp: c dom_update keys_dom)
  show "has_spells cat \<Longrightarrow> has_spells cat'"
    by (auto simp: c has_spells_def update_conv' split: if_splits)
qed

lemma update_entry_ok:
  assumes "entry cat k nm = Some cur" "secondary_school sd \<noteq> None"
  shows "\<exists>cat'. update_entry cat k nm sd = Inr cat'"
  using assms
  by (auto simp: update_entry_def entry_def merge_entry_def split: option.splits)

lemma merge_combo_found:
  "found_in lk nm \<noteq> [] \<Longrightarrow> merge_combo lk (nm, sd) cat = update_found cat (found_in lk nm) nm sd"
  by (auto simp: merge_combo_def found_in_def split: option.splits list.splits)

lemma merge_combo_orphan:
  "found_in lk nm = [] \<Longrightarrow>
     merge_combo lk (nm, sd) cat =
       (case primary_school sd of
          Some primary \<Rightarrow>
            if primary \<noteq> [] \<and> primary \<in> fst ` set cat
            then add_spell cat primary nm sd
            else add_spell
                   (if COMBO_SCHOOL \<notin> fst ` set cat
                    then AList.update COMBO_SCHOOL crafted_school cat else cat)
                   COMBO_SCHOOL nm sd
        | None \<Rightarrow>
            add_spell
              (if COMBO_SCHOOL \<notin> fst ` set cat
               then AList.update COMBO_SCHOOL crafted_school cat else cat)
              COMBO_SCHOOL nm sd)"
  by (auto simp: merge_combo_def found_in_def split: option.splits list.splits)

lemma update_found_entry:
  assumes "\<forall>k \<in> set fs. entry cat k nm \<noteq> None" and "secondary_school sd \<noteq> None"
  shows "\<exists>cat'. update_found cat fs nm sd = Inr cat'
           \<and> fst ` set cat' = fst ` set cat
           \<and> (has_spells cat \<longrightarrow> has_spells cat')
           \<and> (\<forall>k' nm'. entry cat' k' nm' =
                 (if k' \<in> set fs \<and> nm' = nm then merged_with sd (entry cat k' nm)
                  else entry cat k' nm'))"
  using assms(1)
proof (induction fs arbitrary: cat)
  case Nil
  show ?case by simp
next
  case (Cons f fs)
  from Cons.prems obtain cur where cur: "entry cat f nm = Some cur" by auto
  from update_entry_ok[OF cur assms(2)] obtain c1 where u: "update_entry cat f nm sd = Inr c1"
    by blast
  from update_entry_entry(1)[OF u] cur obtain e where
    e: "merge_entry sd cur = Inr e"
    and c1: "\<And>k' nm'. entry c1 k' nm' = (if k' = f \<and> nm' = nm then Some e else entry cat k' nm')"
    by auto
  have "\<forall>k \<in> set fs. entry c1 k nm \<noteq> None" using Cons.prems by (simp add: c1)
  from Cons.IH[OF this] obtain cat' where
    r: "update_found c1 fs nm sd = Inr cat'" and k: "fst ` set cat' = fst ` set c1"
    and h: "has_spells c1 \<longrightarrow> has_spells cat'"
    and en: "\<And>k' nm'. entry cat' k' nm' =
                 (if k' \<in> set fs \<and> nm' = nm then merged_with sd (entry c1 k' nm)
                  else entry c1 k' nm')"
    by blast
  have m1: "merged_with sd (Some cur) = Some e" using e by (simp add: merged_with_def)
  have m2: "merged_with sd (Some e) = Some e"
    using merge_entry_again[OF e] by (simp add: merged_with_def)
  have "\<forall>k' nm'. entry cat' k' nm' =
                 (if k' \<in> set (f # fs) \<and> nm' = nm then merged_with sd (entry cat k' nm)
                  else entry cat k' nm')"
    using m1 m2 cur by (auto simp: en c1)
  with r u k h update_entry_entry(2,3)[OF u] show ?case by auto
qed

lemma entry_None_no_key: "k \<notin> fst ` set cat \<Longrightarrow> entry cat k nm = None"
  by (simp add: entry_def keys_dom)

lemma entry_add_bucket:
  "COMBO_SCHOOL \<notin> fst ` set cat \<Longrightarrow>
     entry (AList.update COMBO_SCHOOL crafted_school cat) k nm = entry cat k nm"
  by (auto simp: entry_def update_conv' crafted_school_def keys_dom)

lemma has_spells_add_bucket:
  "has_spells cat \<Longrightarrow> has_spells (AList.update COMBO_SCHOOL crafted_school cat)"
  by (auto simp: has_spells_def update_conv' crafted_school_def split: if_splits)

lemma add_spell_present:
  assumes "has_spells cat" "k \<in> fst ` set cat"
  shows "\<exists>cat'. add_spell cat k nm sd = Inr cat'"
proof -
  from assms(2) obtain sch where s: "map_of cat k = Some sch" by (auto simp: keys_dom)
  with assms(1) have "spells sch \<noteq> None" by (auto simp: has_spells_def)
  from add_spell_ok[OF s this] show ?thesis .
qed

text \<open>One orphan step: the spell lands in exactly one category.\<close>

lemma merge_combo_orphan_entry:
  assumes f: "found_in lk nm = []" and h: "has_spells cat"
    and k0: "fst ` set cat0 \<subseteq> fst ` set cat" "fst ` set cat \<subseteq> insert COMBO_SCHOOL (fst ` set cat0)"
  shows "\<exists>cat'. merge_combo lk (nm, sd) cat = Inr cat'
           \<and> has_spells cat'
           \<and> fst ` set cat' = (if dest cat0 sd = COMBO_SCHOOL then insert COMBO_SCHOOL (fst ` set cat)
                               else fst ` set cat)
           \<and> (\<forall>k' nm'. entry cat' k' nm' =
                 (if k' = dest cat0 sd \<and> nm' = nm then Some sd else entry cat k' nm'))"
proof -
  let ?b = "if COMBO_SCHOOL \<notin> fst ` set cat
            then AList.update COMBO_SCHOOL crafted_school cat else cat"
  have hb: "has_spells ?b" using h has_spells_add_bucket by simp
  have kb: "fst ` set ?b = insert COMBO_SCHOOL (fst ` set cat)"
    by (auto simp: dom_update)
  have eb: "\<And>k nm. entry ?b k nm = entry cat k nm" by (simp add: entry_add_bucket)
  have bucket: "\<exists>cat'. add_spell ?b COMBO_SCHOOL nm sd = Inr cat'
           \<and> has_spells cat' \<and> fst ` set cat' = insert COMBO_SCHOOL (fst ` set cat)
           \<and> (\<forall>k' nm'. entry cat' k' nm' =
                 (if k' = COMBO_SCHOOL \<and> nm' = nm then Some sd else entry cat k' nm'))"
  proof -
    have "COMBO_SCHOOL \<in> fst ` set ?b" using kb by blast
    from add_spell_present[OF hb this] obtain cat' where a: "add_spell ?b COMBO_SCHOOL nm sd = Inr cat'"
      by blast
    from add_spell_entry[OF a] hb kb eb a show ?thesis by auto
  qed
  show ?thesis
  proof (cases "primary_school sd")
    case None
    then have d: "dest cat0 sd = COMBO_SCHOOL" by (simp add: dest_def)
    have "merge_combo lk (nm, sd) cat = add_spell ?b COMBO_SCHOOL nm sd"
      using None by (simp add: merge_combo_orphan[OF f])
    with bucket show ?thesis by (simp add: d)
  next
    case (Some p)
    show ?thesis
    proof (cases "p \<noteq> [] \<and> p \<in> fst ` set cat")
      case True
      then have pk: "p \<in> fst ` set cat" by simp
      from add_spell_present[OF h pk] obtain cat' where a: "add_spell cat p nm sd = Inr cat'"
        by blast
      have d: "dest cat0 sd = p" using True Some k0 by (auto simp: dest_def)
      have "insert p (fst ` set cat) = fst ` set cat" using pk by blast
      with add_spell_entry[OF a] h a True Some show ?thesis
        by (auto simp: merge_combo_orphan[OF f] d)
    next
      case False
      then have d: "dest cat0 sd = COMBO_SCHOOL" using Some k0 by (auto simp: dest_def)
      have "merge_combo lk (nm, sd) cat = add_spell ?b COMBO_SCHOOL nm sd"
        using False Some by (auto simp: merge_combo_orphan[OF f])
      with bucket show ?thesis by (simp add: d)
    qed
  qed
qed

lemma merged_entry_Cons_other:
  "nm \<noteq> n \<Longrightarrow> merged_entry lk ((n, sd) # rest) cat0 k nm = merged_entry lk rest cat0 k nm"
  by (simp add: merged_entry_def)

lemma merged_entry_Cons_same:
  "merged_entry lk ((n, sd) # rest) cat0 k n =
     (if found_in lk n \<noteq> []
      then (if k \<in> set (found_in lk n) then merged_with sd (entry cat0 k n) else entry cat0 k n)
      else (if k = dest cat0 sd then Some sd else entry cat0 k n))"
  by (simp add: merged_entry_def)

lemma merge_combo_step:
  assumes sound: "\<And>k. k \<in> set (found_in lk n) \<Longrightarrow> entry cat0 k n \<noteq> None"
    and sec: "secondary_school sd \<noteq> None"
    and h: "has_spells cat"
    and rel: "\<And>k. entry cat k n = entry cat0 k n"
    and k0: "fst ` set cat0 \<subseteq> fst ` set cat" "fst ` set cat \<subseteq> insert COMBO_SCHOOL (fst ` set cat0)"
  shows "\<exists>c1. merge_combo lk (n, sd) cat = Inr c1
           \<and> has_spells c1
           \<and> fst ` set c1 = (if found_in lk n = [] \<and> dest cat0 sd = COMBO_SCHOOL
                             then insert COMBO_SCHOOL (fst ` set cat) else fst ` set cat)
           \<and> (\<forall>k nm. entry c1 k nm =
                 (if nm = n then merged_entry lk [(n, sd)] cat0 k n else entry cat k nm))"
proof (cases "found_in lk n = []")
  case True
  from merge_combo_orphan_entry[OF True h k0, of sd] obtain c1 where
    m: "merge_combo lk (n, sd) cat = Inr c1" and h1: "has_spells c1"
    and ks: "fst ` set c1 = (if dest cat0 sd = COMBO_SCHOOL then insert COMBO_SCHOOL (fst ` set cat)
                               else fst ` set cat)"
    and en: "\<And>k' nm'. entry c1 k' nm' =
                 (if k' = dest cat0 sd \<and> nm' = n then Some sd else entry cat k' nm')"
    by blast
  have "\<forall>k nm. entry c1 k nm =
                 (if nm = n then merged_entry lk [(n, sd)] cat0 k n else entry cat k nm)"
    using True rel by (simp add: en merged_entry_Cons_same)
  with m h1 ks True show ?thesis by simp
next
  case False
  have "\<forall>k \<in> set (found_in lk n). entry cat k n \<noteq> None" using sound rel by simp
  from update_found_entry[OF this sec] obtain c1 where
    u: "update_found cat (found_in lk n) n sd = Inr c1" and ks: "fst ` set c1 = fst ` set cat"
    and h1: "has_spells cat \<longrightarrow> has_spells c1"
    and en: "\<And>k' nm'. entry c1 k' nm' =
                 (if k' \<in> set (found_in lk n) \<and> nm' = n then merged_with sd (entry cat k' n)
                  else entry cat k' nm')"
    by blast
  have "\<forall>k nm. entry c1 k nm =
                 (if nm = n then merged_entry lk [(n, sd)] cat0 k n else entry cat k nm)"
    using False rel by (simp add: en merged_entry_Cons_same)
  with u h1 h ks False show ?thesis by (simp add: merge_combo_found[OF False])
qed

lemma merge_all_entries:
  assumes sound: "\<And>nm k. k \<in> set (found_in lk nm) \<Longrightarrow> entry cat0 k nm \<noteq> None"
    and sec: "\<forall>(nm, sd) \<in> set combo. secondary_school sd \<noteq> None"
    and dist: "distinct (map fst combo)"
    and h: "has_spells cat"
    and rel: "\<And>k nm. nm \<in> fst ` set combo \<Longrightarrow> entry cat k nm = entry cat0 k nm"
    and k0: "fst ` set cat0 \<subseteq> fst ` set cat" "fst ` set cat \<subseteq> insert COMBO_SCHOOL (fst ` set cat0)"
  shows "\<exists>cat1. merge_all lk combo cat = Inr cat1
           \<and> has_spells cat1
           \<and> fst ` set cat1 = (if to_bucket lk combo cat0 then insert COMBO_SCHOOL (fst ` set cat)
                               else fst ` set cat)
           \<and> (\<forall>k nm. entry cat1 k nm =
                 (if nm \<in> fst ` set combo then merged_entry lk combo cat0 k nm
                  else entry cat k nm))"
  using sec dist h rel k0
proof (induction combo arbitrary: cat)
  case Nil
  then show ?case by (simp add: to_bucket_def)
next
  case (Cons x rest)
  obtain n sd where x: "x = (n, sd)" by (cases x)
  have sec1: "secondary_school sd \<noteq> None" using Cons.prems(1) by (simp add: x)
  have reln: "\<And>k. entry cat k n = entry cat0 k n" using Cons.prems(4) by (simp add: x)
  from merge_combo_step[OF sound sec1 Cons.prems(3) reln Cons.prems(5,6)] obtain c1 where
    m: "merge_combo lk (n, sd) cat = Inr c1" and h1: "has_spells c1"
    and ks: "fst ` set c1 = (if found_in lk n = [] \<and> dest cat0 sd = COMBO_SCHOOL
                             then insert COMBO_SCHOOL (fst ` set cat) else fst ` set cat)"
    and en: "\<And>k nm. entry c1 k nm =
                 (if nm = n then merged_entry lk [(n, sd)] cat0 k n else entry cat k nm)"
    by blast
  have nn: "n \<notin> fst ` set rest" using Cons.prems(2) by (simp add: x)
  have sec': "\<forall>(nm, sd) \<in> set rest. secondary_school sd \<noteq> None" using Cons.prems(1) by simp
  have dist': "distinct (map fst rest)" using Cons.prems(2) by simp
  have rel': "\<And>k nm. nm \<in> fst ` set rest \<Longrightarrow> entry c1 k nm = entry cat0 k nm"
  proof -
    fix k nm assume a: "nm \<in> fst ` set rest"
    then have "nm \<noteq> n" using nn by blast
    then show "entry c1 k nm = entry cat0 k nm" using a Cons.prems(4) by (simp add: en x)
  qed
  have k1: "fst ` set cat0 \<subseteq> fst ` set c1" using Cons.prems(5) ks by auto
  have k2: "fst ` set c1 \<subseteq> insert COMBO_SCHOOL (fst ` set cat0)" using Cons.prems(6) ks by auto
  from Cons.IH[OF sec' dist' h1 rel' k1 k2] obtain cat1 where
    r: "merge_all lk rest c1 = Inr cat1" and hr: "has_spells cat1"
    and kr: "fst ` set cat1 = (if to_bucket lk rest cat0 then insert COMBO_SCHOOL (fst ` set c1)
                               else fst ` set c1)"
    and er: "\<And>k nm. entry cat1 k nm =
                 (if nm \<in> fst ` set rest then merged_entry lk rest cat0 k nm
                  else entry c1 k nm)"
    by blast
  have tb: "to_bucket lk (x # rest) cat0 \<longleftrightarrow>
              (found_in lk n = [] \<and> dest cat0 sd = COMBO_SCHOOL) \<or> to_bucket lk rest cat0"
    by (simp add: to_bucket_def x)
  have keys: "fst ` set cat1 = (if to_bucket lk (x # rest) cat0
                                then insert COMBO_SCHOOL (fst ` set cat) else fst ` set cat)"
    unfolding tb kr ks by auto
  have ents: "\<forall>k nm. entry cat1 k nm =
                 (if nm \<in> fst ` set (x # rest) then merged_entry lk (x # rest) cat0 k nm
                  else entry cat k nm)"
  proof (intro allI)
    fix k nm
    show "entry cat1 k nm =
                 (if nm \<in> fst ` set (x # rest) then merged_entry lk (x # rest) cat0 k nm
                  else entry cat k nm)"
    proof (cases "nm = n")
      case True
      then show ?thesis using nn
        by (simp add: er en x merged_entry_def)
    next
      case False
      then show ?thesis
        by (simp add: er en x merged_entry_Cons_other)
    qed
  qed
  from r m hr keys ents show ?case by (simp add: x)
qed

section \<open>The listing passes and the lookup\<close>

lemma found_in_update:
  "found_in (AList.update nm v lk) nm' = (if nm' = nm then v else found_in lk nm')"
  by (simp add: found_in_def update_conv')

lemma found_in_lookup_add:
  "found_in (lookup_add k nm lk) nm' = (if nm' = nm then found_in lk nm @ [k] else found_in lk nm')"
  by (cases "map_of lk nm") (simp_all add: lookup_add_def found_in_update, simp_all add: found_in_def)

lemma found_in_fold_add:
  "set (found_in (fold (lookup_add k) names lk) nm) =
     set (found_in lk nm) \<union> (if nm \<in> set names then {k} else {})"
  by (induction names arbitrary: lk) (auto simp: found_in_lookup_add)

lemma found_in_lookup_school:
  "set (found_in (lookup_school (k, sch) lk) nm) =
     set (found_in lk nm) \<union> (if k \<noteq> COMBO_SCHOOL \<and> nm \<in> set (spell_keys sch) then {k} else {})"
  by (simp add: lookup_school_def found_in_fold_add)

lemma found_in_fold_school:
  "set (found_in (fold lookup_school cat lk) nm) =
     set (found_in lk nm)
       \<union> {k. k \<noteq> COMBO_SCHOOL \<and> (\<exists>sch. (k, sch) \<in> set cat \<and> nm \<in> set (spell_keys sch))}"
proof (induction cat arbitrary: lk)
  case Nil
  show ?case by simp
next
  case (Cons x cat)
  obtain k sch where x: "x = (k, sch)" by (cases x)
  show ?case by (auto simp: x Cons.IH found_in_lookup_school)
qed

lemma entry_iff_member:
  assumes "distinct (map fst cat)"
  shows "entry cat k nm \<noteq> None \<longleftrightarrow> (\<exists>sch. (k, sch) \<in> set cat \<and> nm \<in> set (spell_keys sch))"
proof -
  have "entry cat k nm \<noteq> None \<longleftrightarrow> (\<exists>sch. map_of cat k = Some sch \<and> nm \<in> set (spell_keys sch))"
    by (auto simp: entry_def spell_keys_def keys_dom split: option.splits)
  then show ?thesis using assms by (simp add: map_of_eq_Some_iff)
qed

lemma found_in_build_lookup:
  assumes "distinct (map fst cat)"
  shows "set (found_in (build_lookup cat) nm) = {k. k \<noteq> COMBO_SCHOOL \<and> entry cat k nm \<noteq> None}"
proof -
  have "found_in [] nm = []" by (simp add: found_in_def)
  then show ?thesis
    unfolding build_lookup_def found_in_fold_school
    using entry_iff_member[OF assms] by simp
qed

lemma distinct_dict_update:
  "distinct (map fst d) \<Longrightarrow> distinct (map fst (dict_update d other))"
  unfolding dict_update_def
  by (induction other arbitrary: d) (auto simp: distinct_update)

lemma keys_dict_update:
  "fst ` set (dict_update d other) = fst ` set d \<union> fst ` set other"
  unfolding dict_update_def
proof (induction other arbitrary: d)
  case Nil
  show ?case by simp
next
  case (Cons x other)
  obtain k v where x: "x = (k, v)" by (cases x)
  have "fst ` set (AList.update k v d) = insert k (fst ` set d)" by (simp add: dom_update)
  then show ?case by (simp add: x Cons.IH)
qed

lemma values_update: "(k', v') \<in> set (AList.update k v al) \<Longrightarrow> (k', v') \<in> set al \<or> (k' = k \<and> v' = v)"
  by (induction al) (auto split: if_splits)

lemma values_dict_update:
  "(k, v) \<in> set (dict_update d other) \<Longrightarrow> (k, v) \<in> set d \<or> (k, v) \<in> set other"
  unfolding dict_update_def
  by (induction other arbitrary: d) (auto dest: values_update)

lemma plain_listing_record: "plain (listing_record ru u en t d)"
  by (simp add: plain_def listing_record_def)

lemma update_all:
  "\<forall>x \<in> set al. P x \<Longrightarrow> P (k, v) \<Longrightarrow> \<forall>x \<in> set (AList.update k v al). P x"
  by (auto dest!: values_update)

lemma dict_update_all:
  "\<forall>x \<in> set d. P x \<Longrightarrow> \<forall>x \<in> set other. P x \<Longrightarrow> \<forall>x \<in> set (dict_update d other). P x"
  by (auto dest!: values_dict_update)

lemma parse_rows_plain:
  "\<forall>x \<in> set sps. plain (snd x) \<Longrightarrow> \<forall>x \<in> set (parse_rows mp d rows (sps, t)). plain (snd x)"
proof (induction rows arbitrary: sps t)
  case Nil
  then show ?case by simp
next
  case (Cons r rows)
  show ?case
  proof (cases r)
    case (HeaderRow tx)
    with Cons show ?thesis by simp
  next
    case OtherRow
    with Cons show ?thesis by simp
  next
    case (SkillRow ru u fetched)
    have "\<forall>x \<in> set (AList.update (resolve_en_name mp ru fetched)
                (listing_record ru u (resolve_en_name mp ru fetched) t d) sps). plain (snd x)"
      using Cons.prems by (intro update_all) (simp_all add: plain_listing_record)
    from Cons.IH[OF this] Cons.IH[OF Cons.prems] SkillRow show ?thesis by simp
  qed
qed

lemma parse_rows_distinct:
  "distinct (map fst sps) \<Longrightarrow> distinct (map fst (parse_rows mp d rows (sps, t)))"
proof (induction rows arbitrary: sps t)
  case Nil
  then show ?case by simp
next
  case (Cons r rows)
  then show ?case by (cases r) (auto simp: distinct_update)
qed

lemma parse_tables_plain:
  "\<forall>x \<in> set sps. plain (snd x) \<Longrightarrow> \<forall>x \<in> set (parse_tables mp d tables sps). plain (snd x)"
  unfolding parse_tables_def
proof (induction tables arbitrary: sps)
  case Nil
  then show ?case by simp
next
  case (Cons t tables)
  have "\<forall>x \<in> set (parse_skill_table mp t d). plain (snd x)"
    unfolding parse_skill_table_def by (rule parse_rows_plain) simp
  with Cons.prems have "\<forall>x \<in> set (dict_update sps (parse_skill_table mp t d)). plain (snd x)"
    by (rule dict_update_all)
  from Cons.IH[OF this] show ?case by simp
qed

lemma parse_tables_distinct:
  "distinct (map fst sps) \<Longrightarrow> distinct (map fst (parse_tables mp d tables sps))"
  unfolding parse_tables_def
  by (induction tables arbitrary: sps) (simp_all add: distinct_dict_update)

lemma target_school_of_keys:
  "target_school_of tx = Some t \<Longrightarrow> t \<in> set (map fst RU_TO_EN_SCHOOL)"
proof -
  assume a: "target_school_of tx = Some t"
  show ?thesis
  proof (cases "tx \<in> set (map fst RU_TO_EN_SCHOOL)")
    case True
    with a show ?thesis by (simp add: target_school_of_def)
  next
    case False
    with a obtain rest where "filter (\<lambda>ru. contains tx ru) (map fst RU_TO_EN_SCHOOL) = t # rest"
      by (auto simp: target_school_of_def split: list.splits)
    then have "t \<in> set (filter (\<lambda>ru. contains tx ru) (map fst RU_TO_EN_SCHOOL))" by simp
    then show ?thesis by simp
  qed
qed

lemma scrape_links_inv:
  assumes "\<forall>(k, sch) \<in> set schs. k \<in> set (map fst RU_TO_EN_SCHOOL) \<and> plain_school sch"
    and "distinct (map fst schs)"
  shows "(\<forall>(k, sch) \<in> set (scrape_links mp ls (schs, pr)).
            k \<in> set (map fst RU_TO_EN_SCHOOL) \<and> plain_school sch)
       \<and> distinct (map fst (scrape_links mp ls (schs, pr)))"
  using assms
proof (induction ls arbitrary: schs pr)
  case Nil
  then show ?case by simp
next
  case (Cons l ls)
  show ?case
  proof (cases "target_school_of (link_text l)")
    case None
    with Cons show ?thesis by simp
  next
    case (Some t)
    show ?thesis
    proof (cases "t = [] \<or> link_url l \<in> set pr")
      case True
      with Some Cons show ?thesis by auto
    next
      case False
      let ?sch = "\<lparr>s_ru_url = Some (link_url l), s_en_name = map_of RU_TO_EN_SCHOOL t,
                   spells = Some (case link_page l of None \<Rightarrow> []
                                  | Some tables \<Rightarrow> parse_tables mp t tables [])\<rparr>"
      have "\<forall>x \<in> set (case link_page l of None \<Rightarrow> []
                        | Some tables \<Rightarrow> parse_tables mp t tables []). plain (snd x)"
        using parse_tables_plain[of "[]"] by (cases "link_page l") simp_all
      then have ps: "plain_school ?sch" by (simp add: plain_school_def)
      have tk: "t \<in> set (map fst RU_TO_EN_SCHOOL)" using Some by (rule target_school_of_keys)
      have a: "\<forall>(k, sch) \<in> set (AList.update t ?sch schs).
                 k \<in> set (map fst RU_TO_EN_SCHOOL) \<and> plain_school sch"
        using Cons.prems(1) ps tk by (auto dest!: values_update)
      have b: "distinct (map fst (AList.update t ?sch schs))"
        using Cons.prems(2) by (simp add: distinct_update)
      from Cons.IH[OF a b] False Some show ?thesis by simp
    qed
  qed
qed

lemma scrape_schools_inv:
  "(\<forall>(k, sch) \<in> set (scrape_schools mp page).
      k \<in> set (map fst RU_TO_EN_SCHOOL) \<and> plain_school sch)
   \<and> distinct (map fst (scrape_schools mp page))"
proof (cases page)
  case None
  then show ?thesis by (simp add: scrape_schools_def)
next
  case (Some links)
  have "(\<forall>(k, sch) \<in> set (scrape_links mp links ([], [])).
            k \<in> set (map fst RU_TO_EN_SCHOOL) \<and> plain_school sch)
       \<and> distinct (map fst (scrape_links mp links ([], [])))"
    by (rule scrape_links_inv) simp_all
  with Some show ?thesis by (simp add: scrape_schools_def)
qed

lemma scrape_special_inv:
  "(\<forall>(k, sch) \<in> set (scrape_special_skills mp page). k = SPECIAL_SCHOOL \<and> plain_school sch)
   \<and> distinct (map fst (scrape_special_skills mp page))"
proof (cases page)
  case None
  then show ?thesis by (simp add: scrape_special_skills_def)
next
  case (Some tables)
  have "\<forall>x \<in> set (parse_tables mp SPECIAL_SCHOOL tables []). plain (snd x)"
    by (rule parse_tables_plain) simp
  with Some show ?thesis by (simp add: scrape_special_skills_def plain_school_def)
qed

lemma COMBO_SCHOOL_fresh:
  "COMBO_SCHOOL \<notin> set (map fst RU_TO_EN_SCHOOL) \<and> COMBO_SCHOOL \<noteq> SPECIAL_SCHOOL"
  by (simp add: RU_TO_EN_SCHOOL_def COMBO_SCHOOL_def SPECIAL_SCHOOL_def AERO_def GEO_def
      HYDRO_def PYRO_def WARFARE_def HUNT_def SCOUNDREL_def POLY_def SUMMON_def NECRO_def)

lemma listing_catalog_inv:
  "distinct (map fst (listing_catalog st))
   \<and> (\<forall>(k, sch) \<in> set (listing_catalog st).
         (k \<in> set (map fst RU_TO_EN_SCHOOL) \<or> k = SPECIAL_SCHOOL) \<and> plain_school sch)"
proof -
  let ?P = "\<lambda>x. (fst x \<in> set (map fst RU_TO_EN_SCHOOL) \<or> fst x = SPECIAL_SCHOOL) \<and> plain_school (snd x)"
  have a: "\<forall>x \<in> set (scrape_schools (mappings st) (main_page st)). ?P x"
    using scrape_schools_inv[of "mappings st" "main_page st"] by auto
  have b: "\<forall>x \<in> set (scrape_special_skills (mappings st) (special_page st)). ?P x"
    using scrape_special_inv[of "mappings st" "special_page st"] by auto
  have "\<forall>x \<in> set (dict_update [] (scrape_schools (mappings st) (main_page st))). ?P x"
    using a by (intro dict_update_all) simp_all
  then have "\<forall>x \<in> set (listing_catalog st). ?P x"
    unfolding listing_catalog_def using b by (rule dict_update_all)
  moreover have "distinct (map fst (listing_catalog st))"
    unfolding listing_catalog_def by (intro distinct_dict_update) simp
  ultimately show ?thesis by fastforce
qed

lemma listing_catalog_no_bucket: "COMBO_SCHOOL \<notin> fst ` set (listing_catalog st)"
proof
  assume "COMBO_SCHOOL \<in> fst ` set (listing_catalog st)"
  then obtain sch where "(COMBO_SCHOOL, sch) \<in> set (listing_catalog st)" by auto
  with listing_catalog_inv[of st]
  have "COMBO_SCHOOL \<in> set (map fst RU_TO_EN_SCHOOL) \<or> COMBO_SCHOOL = SPECIAL_SCHOOL"
    by blast
  with COMBO_SCHOOL_fresh show False by blast
qed

lemma listing_catalog_has_spells: "has_spells (listing_catalog st)"
proof -
  have "\<And>k sch. map_of (listing_catalog st) k = Some sch \<Longrightarrow> spells sch \<noteq> None"
  proof -
    fix k sch assume "map_of (listing_catalog st) k = Some sch"
    then have "(k, sch) \<in> set (listing_catalog st)" by (rule map_of_SomeD)
    with listing_catalog_inv[of st] have "plain_school sch" by auto
    then show "spells sch \<noteq> None" by (auto simp: plain_school_def)
  qed
  then show ?thesis by (simp add: has_spells_def)
qed

lemma listing_entry_plain:
  assumes "entry (listing_catalog st) k nm = Some e"
  shows "plain e"
proof -
  from assms obtain sch sps where
    s: "map_of (listing_catalog st) k = Some sch" "spells sch = Some sps" "map_of sps nm = Some e"
    by (auto simp: entry_def split: option.splits)
  from s(1) have "(k, sch) \<in> set (listing_catalog st)" by (rule map_of_SomeD)
  with listing_catalog_inv[of st] have "plain_school sch" by auto
  with s(2) have "\<forall>x \<in> set sps. plain (snd x)" by (auto simp: plain_school_def)
  moreover from s(3) have "(nm, e) \<in> set sps" by (rule map_of_SomeD)
  ultimately show ?thesis by auto
qed

lemma combo_rows_inv:
  "distinct (map fst sps) \<and> (\<forall>x \<in> set sps. combo_like (snd x)) \<Longrightarrow>
     distinct (map fst (fold (combo_row_step mp) rows sps))
     \<and> (\<forall>x \<in> set (fold (combo_row_step mp) rows sps). combo_like (snd x))"
proof (induction rows arbitrary: sps)
  case Nil
  then show ?case by simp
next
  case (Cons r rows)
  have "distinct (map fst (combo_row_step mp r sps))
        \<and> (\<forall>x \<in> set (combo_row_step mp r sps). combo_like (snd x))"
  proof (cases r)
    case ComboOther
    with Cons.prems show ?thesis by simp
  next
    case (ComboRow ru u s1 s2 fetched)
    have "combo_like (combo_record ru u (resolve_en_name mp ru fetched) s1 s2)"
      by (simp add: combo_like_def combo_record_def)
    with Cons.prems ComboRow show ?thesis
      by (auto simp: distinct_update dest!: values_update)
  qed
  from Cons.IH[OF this] show ?case by simp
qed

lemma combo_tables_inv:
  "distinct (map fst sps) \<and> (\<forall>x \<in> set sps. combo_like (snd x)) \<Longrightarrow>
     distinct (map fst (fold (combo_table_step mp) tables sps))
     \<and> (\<forall>x \<in> set (fold (combo_table_step mp) tables sps). combo_like (snd x))"
proof (induction tables arbitrary: sps)
  case Nil
  then show ?case by simp
next
  case (Cons t tables)
  have "distinct (map fst (combo_table_step mp t sps))
        \<and> (\<forall>x \<in> set (combo_table_step mp t sps). combo_like (snd x))"
    using Cons.prems combo_rows_inv[of sps mp "combo_rows t"]
    by (simp add: combo_table_step_def)
  from Cons.IH[OF this] show ?case by simp
qed

lemma combo_spells_inv:
  "distinct (map fst (combo_spells_of st))
   \<and> (\<forall>x \<in> set (combo_spells_of st). combo_like (snd x))"
proof (cases "combo_page st")
  case None
  then show ?thesis by (simp add: combo_spells_of_def scrape_combo_skills_def)
next
  case (Some tables)
  have "distinct (map fst (fold (combo_table_step (mappings st)) tables []))
     \<and> (\<forall>x \<in> set (fold (combo_table_step (mappings st)) tables []). combo_like (snd x))"
    by (rule combo_tables_inv) simp
  with Some show ?thesis by (simp add: combo_spells_of_def scrape_combo_skills_def)
qed

lemma scrape_catalog_eq:
  "scrape_catalog st =
     merge_all (build_lookup (listing_catalog st)) (combo_spells_of st) (listing_catalog st)"
  by (cases "combo_page st")
     (simp_all add: scrape_catalog_def combo_spells_of_def scrape_combo_skills_def)

lemma found_in_listing:
  "set (found_in (build_lookup (listing_catalog st)) nm) = holders (listing_catalog st) nm"
proof -
  have "distinct (map fst (listing_catalog st))" using listing_catalog_inv[of st] by simp
  from found_in_build_lookup[OF this, of nm]
  have a: "set (found_in (build_lookup (listing_catalog st)) nm) =
          {k. k \<noteq> COMBO_SCHOOL \<and> entry (listing_catalog st) k nm \<noteq> None}" .
  have b: "entry (listing_catalog st) COMBO_SCHOOL nm = None"
    using listing_catalog_no_bucket[of st] by (rule entry_None_no_key)
  have "\<And>k. entry (listing_catalog st) k nm \<noteq> None \<Longrightarrow> k \<noteq> COMBO_SCHOOL"
    using b by metis
  then show ?thesis unfolding a holders_eq by blast
qed

lemma scrape_catalog_entries:
  "\<exists>cat1. scrape_catalog st = Inr cat1
     \<and> has_spells cat1
     \<and> fst ` set cat1 =
         (if to_bucket (build_lookup (listing_catalog st)) (combo_spells_of st) (listing_catalog st)
          then insert COMBO_SCHOOL (fst ` set (listing_catalog st))
          else fst ` set (listing_catalog st))
     \<and> (\<forall>k nm. entry cat1 k nm =
           merged_entry (build_lookup (listing_catalog st)) (combo_spells_of st)
             (listing_catalog st) k nm)"
proof -
  let ?cat0 = "listing_catalog st" and ?combo = "combo_spells_of st"
  let ?lk = "build_lookup ?cat0"
  have sound: "\<And>nm k. k \<in> set (found_in ?lk nm) \<Longrightarrow> entry ?cat0 k nm \<noteq> None"
    by (simp add: found_in_listing holders_eq)
  have sec: "\<forall>(nm, sd) \<in> set ?combo. secondary_school sd \<noteq> None"
    using combo_spells_inv[of st] by (auto simp: combo_like_def)
  have dist: "distinct (map fst ?combo)" using combo_spells_inv[of st] by simp
  have rel: "\<And>k nm. nm \<in> fst ` set ?combo \<Longrightarrow> entry ?cat0 k nm = entry ?cat0 k nm" by simp
  have k1: "fst ` set ?cat0 \<subseteq> fst ` set ?cat0" by simp
  have k2: "fst ` set ?cat0 \<subseteq> insert COMBO_SCHOOL (fst ` set ?cat0)" by blast
  from merge_all_entries[of ?lk ?cat0 ?combo ?cat0,
      OF sound sec dist listing_catalog_has_spells rel k1 k2]
  obtain cat1 where
    m: "merge_all ?lk ?combo ?cat0 = Inr cat1" and h: "has_spells cat1"
    and ks: "fst ` set cat1 = (if to_bucket ?lk ?combo ?cat0
                               then insert COMBO_SCHOOL (fst ` set ?cat0) else fst ` set ?cat0)"
    and en: "\<And>k nm. entry cat1 k nm =
                 (if nm \<in> fst ` set ?combo then merged_entry ?lk ?combo ?cat0 k nm
                  else entry ?cat0 k nm)"
    by auto
  have "\<And>k nm. nm \<notin> fst ` set ?combo \<Longrightarrow> merged_entry ?lk ?combo ?cat0 k nm = entry ?cat0 k nm"
  proof -
    fix k nm assume "nm \<notin> fst ` set ?combo"
    then have "map_of ?combo nm = None" by (simp add: map_of_eq_None_iff)
    then show "merged_entry ?lk ?combo ?cat0 k nm = entry ?cat0 k nm"
      by (simp add: merged_entry_def)
  qed
  with en have "\<forall>k nm. entry cat1 k nm = merged_entry ?lk ?combo ?cat0 k nm" by auto
  with m h ks show ?thesis by (simp add: scrape_catalog_eq)
qed

text \<open>The run returns, and every school of the written document has its spells.\<close>

lemma scrape_main_total:
  "\<exists>cat. scrape_catalog st = Inr cat \<and> has_spells cat
     \<and> scrape_main st =
         Inr \<lparr>meta = Some [(''source'', MAIN_SKILLS_URL),
                           (''note'', ''Automatically scraped from Divinity Fandom Wiki (ru)'')],
              schools = Some cat\<rparr>"
proof -
  from scrape_catalog_entries[of st] obtain cat where
    c: "scrape_catalog st = Inr cat" and h: "has_spells cat" by blast
  from c have "scrape_main st =
         Inr \<lparr>meta = Some [(''source'', MAIN_SKILLS_URL),
                           (''note'', ''Automatically scraped from Divinity Fandom Wiki (ru)'')],
              schools = Some cat\<rparr>"
    by (simp add: scrape_main_def)
  with c h show ?thesis by (intro exI conjI)
qed

section \<open>The catalog after the merge\<close>

lemma merge_entry_fields:
  assumes "merge_entry sd e = Inr e'"
  shows "ru_name e' = ru_name e \<and> ru_url e' = ru_url e \<and> en_name e' = en_name e
       \<and> tier e' = tier e \<and> primary_school e' = primary_school e
       \<and> is_combo e' = Some True \<and> secondary_school e' = secondary_school sd
       \<and> en_url e' = (if \<not> truthy (en_url e) \<and> truthy (en_url sd) then en_url sd else en_url e)"
  using assms by (auto simp: merge_entry_def split: option.splits if_splits)

lemma merge_entry_ok:
  "combo_like sd \<Longrightarrow> \<exists>e'. merge_entry sd e = Inr e'"
  by (auto simp: merge_entry_def combo_like_def split: option.splits)

lemma combo_spell_like:
  assumes "map_of (combo_spells_of st) nm = Some sd"
  shows "combo_like sd"
proof -
  from assms have "(nm, sd) \<in> set (combo_spells_of st)" by (rule map_of_SomeD)
  with combo_spells_inv[of st] show ?thesis by auto
qed

text \<open>What the merge leaves of an entry of the listing passes.\<close>

lemma final_entry_listed:
  assumes c: "scrape_catalog st = Inr cat1"
    and e: "entry (listing_catalog st) k nm = Some e"
  shows "case map_of (combo_spells_of st) nm of
           None \<Rightarrow> entry cat1 k nm = Some e
         | Some sd \<Rightarrow> (\<exists>e'. merge_entry sd e = Inr e' \<and> entry cat1 k nm = Some e')"
proof -
  let ?cat0 = "listing_catalog st" and ?combo = "combo_spells_of st"
  let ?lk = "build_lookup ?cat0"
  from scrape_catalog_entries[of st] c
  have en: "entry cat1 k nm = merged_entry ?lk ?combo ?cat0 k nm" by auto
  show ?thesis
  proof (cases "map_of ?combo nm")
    case None
    then show ?thesis using en e by (simp add: merged_entry_def)
  next
    case (Some sd)
    have "k \<in> holders ?cat0 nm" using e by (simp add: holders_eq)
    then have k: "k \<in> set (found_in ?lk nm)" by (simp add: found_in_listing)
    then have ne: "found_in ?lk nm \<noteq> []" by auto
    from merge_entry_ok[OF combo_spell_like[OF Some], of e] obtain e' where
      m: "merge_entry sd e = Inr e'" by blast
    have "merged_entry ?lk ?combo ?cat0 k nm = Some e'"
      using Some k ne e m by (simp add: merged_entry_def merged_with_def)
    with en m Some show ?thesis by simp
  qed
qed



lemma map_of_dict_update:
  "distinct (map fst other) \<Longrightarrow>
     map_of (dict_update d other) k = (case map_of other k of None \<Rightarrow> map_of d k | Some v \<Rightarrow> Some v)"
  unfolding dict_update_def
proof (induction other arbitrary: d)
  case Nil
  show ?case by simp
next
  case (Cons x other)
  obtain k' v' where x: "x = (k', v')" by (cases x)
  from Cons.prems have d: "distinct (map fst other)" and n: "map_of other k' = None"
    by (auto simp: x map_of_eq_None_iff)
  show ?case using Cons.IH[OF d, of "AList.update k' v' d"] n
    by (auto simp: x update_conv' split: option.splits)
qed

section \<open>Category membership\<close>










section \<open>Display names and tiers\<close>

text \<open>
  C5, as stated, fails: a skill listed in two tables of one school page gets its tier from
  the first table (Novice) and then, when the second table is merged, the tier of the
  second (Adept). The later table of the same pass has changed a tier label that was set.
\<close>

theorem fill_only_counterexample:
  "Option.bind (map_of (parse_tables no_mappings AERO [novice_table] []) ''Teleportation'')
     tier = Some ''Novice''
   \<and> Option.bind (map_of (parse_tables no_mappings AERO two_tier_tables []) ''Teleportation'')
       tier = Some ''Adept''
   \<and> Option.bind (result_entry (scrape_catalog two_tier_site) AERO ''Teleportation'') tier =
       Some ''Adept''"
  by code_simp

lemma parse_tables_snoc:
  "map_of (parse_tables mp d (tables @ [t]) sps) nm =
     (case map_of (parse_skill_table mp t d) nm of
        None \<Rightarrow> map_of (parse_tables mp d tables sps) nm
      | Some e \<Rightarrow> Some e)"
proof -
  have "distinct (map fst (parse_skill_table mp t d))"
    unfolding parse_skill_table_def by (rule parse_rows_distinct) simp
  from map_of_dict_update[OF this]
  have "map_of (dict_update (parse_tables mp d tables sps) (parse_skill_table mp t d)) nm =
     (case map_of (parse_skill_table mp t d) nm of
        None \<Rightarrow> map_of (parse_tables mp d tables sps) nm
      | Some e \<Rightarrow> Some e)" .
  moreover have "parse_tables mp d (tables @ [t]) sps =
      dict_update (parse_tables mp d tables sps) (parse_skill_table mp t d)"
    by (simp add: parse_tables_def)
  ultimately show ?thesis by simp
qed

text \<open>
  C5, amended. The merge of the combo listing never changes the display names or the tier
  of an entry that the listing passes have stored: the run returns, and every such entry
  is still there with the same \<open>ru_name\<close>, \<open>en_name\<close> and \<open>tier\<close>. Inside a listing
  pass the fields are not fill-only: when a later table of a page carries an identifier,
  its record replaces the one stored before.
\<close>

theorem names_and_tier_kept_by_combo_merge:
  "(\<exists>cat1. scrape_catalog st = Inr cat1
      \<and> (\<forall>k nm e. entry (listing_catalog st) k nm = Some e \<longrightarrow>
            (\<exists>e'. entry cat1 k nm = Some e'
               \<and> ru_name e' = ru_name e \<and> en_name e' = en_name e \<and> tier e' = tier e)))
   \<and> map_of (parse_tables mp d (tables @ [t]) sps) nm =
       (case map_of (parse_skill_table mp t d) nm of
          None \<Rightarrow> map_of (parse_tables mp d tables sps) nm
        | Some e \<Rightarrow> Some e)"
proof (intro conjI)
  from scrape_catalog_entries[of st] obtain cat1 where c: "scrape_catalog st = Inr cat1" by blast
  have "\<forall>k nm e. entry (listing_catalog st) k nm = Some e \<longrightarrow>
            (\<exists>e'. entry cat1 k nm = Some e'
               \<and> ru_name e' = ru_name e \<and> en_name e' = en_name e \<and> tier e' = tier e)"
  proof (intro allI impI)
    fix k nm e assume e: "entry (listing_catalog st) k nm = Some e"
    show "\<exists>e'. entry cat1 k nm = Some e'
               \<and> ru_name e' = ru_name e \<and> en_name e' = en_name e \<and> tier e' = tier e"
    proof (cases "map_of (combo_spells_of st) nm")
      case None
      with final_entry_listed[OF c e] show ?thesis by simp
    next
      case (Some sd)
      with final_entry_listed[OF c e] obtain e' where
        m: "merge_entry sd e = Inr e'" and f: "entry cat1 k nm = Some e'" by auto
      from merge_entry_fields[OF m] f show ?thesis by simp
    qed
  qed
  with c show "\<exists>cat1. scrape_catalog st = Inr cat1
      \<and> (\<forall>k nm e. entry (listing_catalog st) k nm = Some e \<longrightarrow>
            (\<exists>e'. entry cat1 k nm = Some e'
               \<and> ru_name e' = ru_name e \<and> en_name e' = en_name e \<and> tier e' = tier e))"
    by (intro exI conjI)
next
  show "map_of (parse_tables mp d (tables @ [t]) sps) nm =
       (case map_of (parse_skill_table mp t d) nm of
          None \<Rightarrow> map_of (parse_tables mp d tables sps) nm
        | Some e \<Rightarrow> Some e)"
    by (rule parse_tables_snoc)
qed

lemma sample_bubble_listed:
  "entry (listing_catalog (combo_site sample_combo_rows)) AERO ''Puzyr'' =
     Some (listing_record ''Puzyr'' ''https://divinity.fandom.com/ru/wiki/B'' ''Puzyr'' ''Novice'' AERO)"
  by code_simp

lemma sample_bubble_combo:
  "map_of (combo_spells_of (combo_site sample_combo_rows)) ''Puzyr'' =
     Some (combo_record ''Vozdushnyi puzyr'' ''https://divinity.fandom.com/ru/wiki/VB'' ''Puzyr''
             AERO WARFARE)"
  by code_simp

theorem names_and_tier_kept_by_combo_merge_witness:
  "\<exists>cat1. scrape_catalog (combo_site sample_combo_rows) = Inr cat1
     \<and> Option.bind (entry (listing_catalog (combo_site sample_combo_rows)) AERO ''Puzyr'') tier
         = Some ''Novice''
     \<and> Option.bind (entry cat1 AERO ''Puzyr'') tier = Some ''Novice''
     \<and> Option.bind (entry cat1 AERO ''Puzyr'') ru_name = Some ''Puzyr''
     \<and> Option.bind (entry cat1 AERO ''Puzyr'') en_name = Some ''Puzyr''"
proof -
  let ?e = "listing_record ''Puzyr'' ''https://divinity.fandom.com/ru/wiki/B'' ''Puzyr'' ''Novice'' AERO"
  from names_and_tier_kept_by_combo_merge
    [where st = "combo_site sample_combo_rows" and mp = no_mappings and d = AERO
       and tables = "[]" and t = "[]" and sps = "[]" and nm = "''Puzyr''"]
  obtain cat1 where
    c: "scrape_catalog (combo_site sample_combo_rows) = Inr cat1"
    and h: "\<forall>k nm e. entry (listing_catalog (combo_site sample_combo_rows)) k nm = Some e \<longrightarrow>
            (\<exists>e'. entry cat1 k nm = Some e'
               \<and> ru_name e' = ru_name e \<and> en_name e' = en_name e \<and> tier e' = tier e)"
    by (elim exE conjE) (rule that; assumption)
  from h[rule_format, OF sample_bubble_listed] obtain e' where
    e': "entry cat1 AERO ''Puzyr'' = Some e'" "ru_name e' = ru_name ?e" "en_name e' = en_name ?e"
      "tier e' = tier ?e"
    by (elim exE conjE) (rule that; assumption)
  show ?thesis
    using c e' sample_bubble_listed by (simp add: listing_record_def)
qed

section \<open>The rows of a pass, one after the other\<close>

lemma map_of_reorder:
  assumes "distinct (map fst xs)" and "mset ys = mset xs"
  shows "map_of ys = map_of xs"
proof -
  from assms(2) have "mset (map fst ys) = mset (map fst xs)" by simp
  with assms(1) have d: "distinct (map fst ys)" by (metis mset_eq_imp_distinct_iff)
  from assms(2) have "set ys = set xs" by (rule mset_eq_setD)
  with d assms(1) show ?thesis by (simp add: map_of_inject_set)
qed

lemma parse_rows_entries:
  "\<forall>r \<in> set rows. \<not> is_header r \<Longrightarrow>
     parse_rows mp d rows (sps, t) = dict_update sps (List.map_filter (row_entry mp d t) rows)"
proof (induction rows arbitrary: sps)
  case Nil
  show ?case by (simp add: dict_update_def List.map_filter_simps)
next
  case (Cons r rows)
  then have IH: "\<And>sps. parse_rows mp d rows (sps, t) =
                  dict_update sps (List.map_filter (row_entry mp d t) rows)"
    by simp
  show ?case
  proof (cases r)
    case (HeaderRow tx)
    with Cons.prems show ?thesis by simp
  next
    case OtherRow
    then show ?thesis by (simp add: IH List.map_filter_simps)
  next
    case (SkillRow ru u fetched)
    then show ?thesis by (simp add: IH List.map_filter_simps dict_update_def)
  qed
qed

lemma mset_map_filter:
  "mset ys = mset xs \<Longrightarrow> mset (List.map_filter f ys) = mset (List.map_filter f xs)"
  by (simp add: List.map_filter_def mset_filter)

lemma parse_rows_reorder:
  assumes nh: "\<forall>r \<in> set rows. \<not> is_header r"
    and dist: "distinct (map fst (List.map_filter (row_entry mp d t) rows))"
    and perm: "mset rows' = mset rows"
  shows "map_of (parse_rows mp d rows' (sps, t)) = map_of (parse_rows mp d rows (sps, t))"
proof -
  let ?es = "List.map_filter (row_entry mp d t) rows"
  let ?es' = "List.map_filter (row_entry mp d t) rows'"
  from perm have "set rows' = set rows" by (rule mset_eq_setD)
  with nh have nh': "\<forall>r \<in> set rows'. \<not> is_header r" by simp
  have p: "mset ?es' = mset ?es" using perm by (rule mset_map_filter)
  then have "mset (map fst ?es') = mset (map fst ?es)" by simp
  with dist have dist': "distinct (map fst ?es')" by (metis mset_eq_imp_distinct_iff)
  have m: "map_of ?es' = map_of ?es" using dist p by (rule map_of_reorder)
  have "\<And>k. map_of (dict_update sps ?es') k = map_of (dict_update sps ?es) k"
    by (simp add: map_of_dict_update[OF dist] map_of_dict_update[OF dist'] m)
  then have "map_of (dict_update sps ?es') = map_of (dict_update sps ?es)" by (rule ext)
  then show ?thesis by (simp add: parse_rows_entries[OF nh] parse_rows_entries[OF nh'])
qed

lemma tier_after_append: "tier_after (xs @ ys) t = tier_after ys (tier_after xs t)"
  by (induction xs t rule: tier_after.induct) simp_all

lemma tier_after_plain: "\<forall>r \<in> set rows. \<not> is_header r \<Longrightarrow> tier_after rows t = t"
  by (induction rows t rule: tier_after.induct) simp_all

lemma parse_rows_append:
  "parse_rows mp d (xs @ ys) (sps, t) =
     parse_rows mp d ys (parse_rows mp d xs (sps, t), tier_after xs t)"
proof (induction xs arbitrary: sps t)
  case Nil
  show ?case by simp
next
  case (Cons r xs)
  show ?case by (cases r) (simp_all add: Cons.IH)
qed

lemma parse_rows_snoc:
  "map_of (parse_rows mp d (rows @ [r]) (sps, t)) nm =
     (case row_entry mp d (tier_after rows t) r of
        None \<Rightarrow> map_of (parse_rows mp d rows (sps, t)) nm
      | Some (k, e) \<Rightarrow> if nm = k then Some e else map_of (parse_rows mp d rows (sps, t)) nm)"
  by (cases r) (simp_all add: parse_rows_append update_conv')

lemma parse_rows_cong:
  "map_of sps' = map_of sps \<Longrightarrow>
     map_of (parse_rows mp d rows (sps', t)) = map_of (parse_rows mp d rows (sps, t))"
proof (induction rows arbitrary: sps sps' t)
  case Nil
  then show ?case by simp
next
  case (Cons r rows)
  show ?case
  proof (cases r)
    case (HeaderRow tx)
    then show ?thesis using Cons.IH[OF Cons.prems] by simp
  next
    case OtherRow
    then show ?thesis using Cons.IH[OF Cons.prems] by simp
  next
    case (SkillRow ru u f)
    have "map_of (AList.update (resolve_en_name mp ru f)
              (listing_record ru u (resolve_en_name mp ru f) t d) sps')
        = map_of (AList.update (resolve_en_name mp ru f)
              (listing_record ru u (resolve_en_name mp ru f) t d) sps)"
      using Cons.prems by (simp add: update_conv')
    from Cons.IH[OF this] Cons.IH[OF Cons.prems] SkillRow show ?thesis by simp
  qed
qed

lemma row_ids_eq: "map fst (List.map_filter (row_entry mp d t) rows) = row_ids mp rows"
proof (induction rows)
  case Nil
  show ?case by (simp add: row_ids_def List.map_filter_simps)
next
  case (Cons r rows)
  then have "map fst (List.map_filter (row_entry mp d t) rows)
      = map fst (List.map_filter (row_entry mp [] []) rows)"
    by (simp add: row_ids_def)
  then show ?case by (cases r) (simp_all add: row_ids_def List.map_filter_simps)
qed

lemma table_reorder:
  assumes nh: "\<forall>r \<in> set seg. \<not> is_header r"
    and dist: "distinct (row_ids mp seg)"
    and perm: "mset seg' = mset seg"
  shows "map_of (parse_skill_table mp (pre @ seg' @ post) d) =
         map_of (parse_skill_table mp (pre @ seg @ post) d)"
proof -
  from perm have "set seg' = set seg" by (rule mset_eq_setD)
  with nh have nh': "\<forall>r \<in> set seg'. \<not> is_header r" by simp
  let ?t = "tier_after pre UNKNOWN_TIER"
  let ?s = "parse_rows mp d pre ([], UNKNOWN_TIER)"
  have d: "distinct (map fst (List.map_filter (row_entry mp d ?t) seg))"
    using dist by (simp add: row_ids_eq)
  have "map_of (parse_rows mp d seg' (?s, ?t)) = map_of (parse_rows mp d seg (?s, ?t))"
    using nh d perm by (rule parse_rows_reorder)
  then have "map_of (parse_rows mp d post (parse_rows mp d seg' (?s, ?t), ?t)) =
             map_of (parse_rows mp d post (parse_rows mp d seg (?s, ?t), ?t))"
    by (rule parse_rows_cong)
  then show ?thesis
    by (simp add: parse_skill_table_def parse_rows_append tier_after_plain[OF nh]
        tier_after_plain[OF nh'])
qed

lemma parse_table_distinct: "distinct (map fst (parse_skill_table mp t d))"
  unfolding parse_skill_table_def by (rule parse_rows_distinct) simp

lemma dict_update_cong:
  assumes "distinct (map fst other)" "distinct (map fst other')"
    and "map_of other' = map_of other" and "map_of d' = map_of d"
  shows "map_of (dict_update d' other') = map_of (dict_update d other)"
proof (rule ext)
  fix k
  show "map_of (dict_update d' other') k = map_of (dict_update d other) k"
    using assms(3,4)
    by (simp add: map_of_dict_update[OF assms(1)] map_of_dict_update[OF assms(2)]
        split: option.splits)
qed

lemma parse_tables_cong:
  assumes "list_all2 (\<lambda>t t'. map_of (parse_skill_table mp t' d) = map_of (parse_skill_table mp t d))
             ts ts'"
    and "map_of sps' = map_of sps"
  shows "map_of (parse_tables mp d ts' sps') = map_of (parse_tables mp d ts sps)"
  using assms
proof (induction ts ts' arbitrary: sps sps' rule: list_all2_induct)
  case Nil
  then show ?case by (simp add: parse_tables_def)
next
  case (Cons t ts t' ts')
  have "map_of (dict_update sps' (parse_skill_table mp t' d)) =
        map_of (dict_update sps (parse_skill_table mp t d))"
    using parse_table_distinct parse_table_distinct Cons.hyps(1) Cons.prems
    by (rule dict_update_cong)
  from Cons.IH[OF this] show ?case by (simp add: parse_tables_def)
qed

lemma tables_reorder:
  assumes nh: "\<forall>r \<in> set seg. \<not> is_header r"
    and dist: "distinct (row_ids mp seg)"
    and perm: "mset seg' = mset seg"
  shows "map_of (parse_tables mp d (ts1 @ (pre @ seg' @ post) # ts2) []) =
         map_of (parse_tables mp d (ts1 @ (pre @ seg @ post) # ts2) [])"
proof (rule parse_tables_cong)
  show "list_all2 (\<lambda>t t'. map_of (parse_skill_table mp t' d) = map_of (parse_skill_table mp t d))
     (ts1 @ (pre @ seg @ post) # ts2) (ts1 @ (pre @ seg' @ post) # ts2)"
    using table_reorder[OF nh dist perm]
    by (intro list_all2_appendI list_all2_refl list_all2_Cons[THEN iffD2] conjI) simp_all
  show "map_of ([] :: spell_dict) = map_of []" by simp
qed

lemma SPECIAL_SCHOOL_fresh: "SPECIAL_SCHOOL \<notin> set (map fst RU_TO_EN_SCHOOL)"
  by (simp add: RU_TO_EN_SCHOOL_def SPECIAL_SCHOOL_def AERO_def GEO_def
      HYDRO_def PYRO_def WARFARE_def HUNT_def SCOUNDREL_def POLY_def SUMMON_def NECRO_def)

lemma entry_update_school:
  "entry (AList.update k sch cat) k' nm =
     (if k' = k then (case spells sch of None \<Rightarrow> None | Some sps \<Rightarrow> map_of sps nm)
      else entry cat k' nm)"
  by (simp add: entry_def update_conv')

lemma scrape_links_cong:
  assumes "list_all2 (\<lambda>l l'. link_text l' = link_text l \<and> link_url l' = link_url l
               \<and> (\<forall>d. map_of (case link_page l' of None \<Rightarrow> [] | Some ts \<Rightarrow> parse_tables mp d ts [])
                      = map_of (case link_page l of None \<Rightarrow> [] | Some ts \<Rightarrow> parse_tables mp d ts [])))
             ls ls'"
    and "fst ` set schs' = fst ` set schs"
    and "\<forall>k nm. entry schs' k nm = entry schs k nm"
  shows "fst ` set (scrape_links mp ls' (schs', pu)) = fst ` set (scrape_links mp ls (schs, pu))
       \<and> (\<forall>k nm. entry (scrape_links mp ls' (schs', pu)) k nm
                  = entry (scrape_links mp ls (schs, pu)) k nm)"
  using assms
proof (induction ls ls' arbitrary: schs schs' pu rule: list_all2_induct)
  case Nil
  then show ?case by simp
next
  case (Cons l ls l' ls')
  from Cons.hyps(1) have tx: "link_text l' = link_text l" and u: "link_url l' = link_url l"
    and pg: "\<And>d. map_of (case link_page l' of None \<Rightarrow> [] | Some ts \<Rightarrow> parse_tables mp d ts [])
                = map_of (case link_page l of None \<Rightarrow> [] | Some ts \<Rightarrow> parse_tables mp d ts [])"
    by simp_all
  show ?case
  proof (cases "target_school_of (link_text l)")
    case None
    with tx Cons.IH[OF Cons.prems] show ?thesis by simp
  next
    case (Some t)
    show ?thesis
    proof (cases "t = [] \<or> link_url l \<in> set pu")
      case True
      with Some tx u Cons.IH[OF Cons.prems] show ?thesis by auto
    next
      case False
      let ?sch = "\<lparr>s_ru_url = Some (link_url l), s_en_name = map_of RU_TO_EN_SCHOOL t,
                   spells = Some (case link_page l of None \<Rightarrow> []
                                  | Some tables \<Rightarrow> parse_tables mp t tables [])\<rparr>"
      let ?sch' = "\<lparr>s_ru_url = Some (link_url l), s_en_name = map_of RU_TO_EN_SCHOOL t,
                   spells = Some (case link_page l' of None \<Rightarrow> []
                                  | Some tables \<Rightarrow> parse_tables mp t tables [])\<rparr>"
      have a: "fst ` set (AList.update t ?sch' schs') = fst ` set (AList.update t ?sch schs)"
        using Cons.prems(1) by (simp add: dom_update)
      have b: "\<forall>k nm. entry (AList.update t ?sch' schs') k nm
                     = entry (AList.update t ?sch schs) k nm"
        using Cons.prems(2) pg[of t] by (simp add: entry_update_school)
      from Cons.IH[OF a b, of "link_url l # pu"] False Some tx u show ?thesis by simp
    qed
  qed
qed

lemma scrape_schools_no_special:
  "SPECIAL_SCHOOL \<notin> fst ` set (scrape_schools mp page)"
proof
  assume "SPECIAL_SCHOOL \<in> fst ` set (scrape_schools mp page)"
  then obtain sch where "(SPECIAL_SCHOOL, sch) \<in> set (scrape_schools mp page)" by auto
  with scrape_schools_inv[of mp page] have "SPECIAL_SCHOOL \<in> set (map fst RU_TO_EN_SCHOOL)"
    by blast
  with SPECIAL_SCHOOL_fresh show False by simp
qed

lemma listing_entry:
  "entry (listing_catalog st) k nm =
     (if k = SPECIAL_SCHOOL
      then (case special_page st of
              None \<Rightarrow> None
            | Some tables \<Rightarrow> map_of (parse_tables (mappings st) SPECIAL_SCHOOL tables []) nm)
      else entry (scrape_schools (mappings st) (main_page st)) k nm)"
proof -
  let ?a = "scrape_schools (mappings st) (main_page st)"
  let ?b = "scrape_special_skills (mappings st) (special_page st)"
  have da: "distinct (map fst ?a)" using scrape_schools_inv[of "mappings st" "main_page st"] by simp
  have db: "distinct (map fst ?b)" using scrape_special_inv[of "mappings st" "special_page st"] by simp
  have m: "map_of (listing_catalog st) k =
      (case map_of ?b k of None \<Rightarrow> map_of ?a k | Some v \<Rightarrow> Some v)"
    unfolding listing_catalog_def
    by (simp add: map_of_dict_update[OF db] map_of_dict_update[OF da] split: option.splits)
  have n: "map_of ?a SPECIAL_SCHOOL = None"
    using scrape_schools_no_special[of "mappings st" "main_page st"]
    by (simp add: map_of_eq_None_iff)
  show ?thesis
  proof (cases "special_page st")
    case None
    then have "map_of ?b k = None" by (simp add: scrape_special_skills_def)
    with m n None show ?thesis by (simp add: entry_def)
  next
    case (Some tables)
    with m show ?thesis by (simp add: entry_def scrape_special_skills_def)
  qed
qed

lemma listing_keys:
  "fst ` set (listing_catalog st) =
     fst ` set (scrape_schools (mappings st) (main_page st))
       \<union> (case special_page st of None \<Rightarrow> {} | Some tables \<Rightarrow> {SPECIAL_SCHOOL})"
  unfolding listing_catalog_def keys_dict_update
  by (cases "special_page st") (simp_all add: scrape_special_skills_def)

lemma scrape_catalog_cong:
  assumes keys: "fst ` set (listing_catalog st') = fst ` set (listing_catalog st)"
    and en: "\<forall>k nm. entry (listing_catalog st') k nm = entry (listing_catalog st) k nm"
    and cm: "map_of (combo_spells_of st') = map_of (combo_spells_of st)"
  shows "\<exists>c c'. scrape_catalog st = Inr c \<and> scrape_catalog st' = Inr c'
           \<and> fst ` set c' = fst ` set c \<and> (\<forall>k nm. entry c' k nm = entry c k nm)"
proof -
  let ?cat0 = "listing_catalog st" and ?combo = "combo_spells_of st"
  let ?cat0' = "listing_catalog st'" and ?combo' = "combo_spells_of st'"
  let ?lk = "build_lookup ?cat0" and ?lk' = "build_lookup ?cat0'"
  from scrape_catalog_entries[of st] obtain c where
    c: "scrape_catalog st = Inr c"
    and ks: "fst ` set c = (if to_bucket ?lk ?combo ?cat0
                            then insert COMBO_SCHOOL (fst ` set ?cat0) else fst ` set ?cat0)"
    and e: "\<forall>k nm. entry c k nm = merged_entry ?lk ?combo ?cat0 k nm"
    by (elim exE conjE) (rule that; assumption)
  from scrape_catalog_entries[of st'] obtain c' where
    c': "scrape_catalog st' = Inr c'"
    and ks': "fst ` set c' = (if to_bucket ?lk' ?combo' ?cat0'
                            then insert COMBO_SCHOOL (fst ` set ?cat0') else fst ` set ?cat0')"
    and e': "\<forall>k nm. entry c' k nm = merged_entry ?lk' ?combo' ?cat0' k nm"
    by (elim exE conjE) (rule that; assumption)
  have f: "\<And>nm. set (found_in ?lk' nm) = set (found_in ?lk nm)"
    using en by (simp add: found_in_listing holders_eq)
  have fe: "\<And>nm. (found_in ?lk' nm = []) = (found_in ?lk nm = [])"
    using f by (metis set_empty)
  have d: "\<And>sd. dest ?cat0' sd = dest ?cat0 sd"
    using keys by (simp add: dest_def split: option.splits)
  have me: "\<And>k nm. merged_entry ?lk' ?combo' ?cat0' k nm = merged_entry ?lk ?combo ?cat0 k nm"
    using en cm f fe d by (simp add: merged_entry_def split: option.splits)
  have "distinct (map fst ?combo)" "distinct (map fst ?combo')"
    using combo_spells_inv[of st] combo_spells_inv[of st'] by simp_all
  with cm have sc: "set ?combo' = set ?combo" by (simp add: map_of_inject_set)
  have tb: "to_bucket ?lk' ?combo' ?cat0' = to_bucket ?lk ?combo ?cat0"
    using sc fe d by (simp add: to_bucket_def)
  have k: "fst ` set c' = fst ` set c" unfolding ks ks' tb keys ..
  have "\<forall>k nm. entry c' k nm = entry c k nm" using e e' me by simp
  with c c' k show ?thesis by (intro exI conjI)
qed

lemma fold_combo_rows:
  "fold (combo_row_step mp) rows acc = dict_update acc (List.map_filter (combo_entry mp) rows)"
proof (induction rows arbitrary: acc)
  case Nil
  show ?case by (simp add: dict_update_def List.map_filter_simps)
next
  case (Cons r rows)
  show ?case by (cases r) (simp_all add: Cons.IH dict_update_def List.map_filter_simps)
qed

lemma fold_combo_tables:
  "fold (combo_table_step mp) tables acc = fold (combo_row_step mp) (page_rows tables) acc"
  by (induction tables arbitrary: acc) (simp_all add: page_rows_def combo_table_step_def)

lemma combo_spells_page:
  "combo_page st = Some tables \<Longrightarrow>
     combo_spells_of st =
       dict_update [] (List.map_filter (combo_entry (mappings st)) (page_rows tables))"
  by (simp add: combo_spells_of_def scrape_combo_skills_def fold_combo_tables fold_combo_rows)

lemma combo_rows_snoc:
  "map_of (fold (combo_row_step mp) (rows @ [r]) acc) nm =
     (case combo_entry mp r of
        None \<Rightarrow> map_of (fold (combo_row_step mp) rows acc) nm
      | Some (k, e) \<Rightarrow> if nm = k then Some e else map_of (fold (combo_row_step mp) rows acc) nm)"
  by (cases r) (simp_all add: update_conv')

lemma combo_rows_reorder:
  assumes cp: "combo_page st = Some tables"
    and dist: "distinct (combo_ids (mappings st) (page_rows tables))"
    and perm: "mset (page_rows tables') = mset (page_rows tables)"
  shows "\<exists>c c'. scrape_catalog st = Inr c
           \<and> scrape_catalog (st\<lparr>combo_page := Some tables'\<rparr>) = Inr c'
           \<and> fst ` set c' = fst ` set c \<and> (\<forall>k nm. entry c' k nm = entry c k nm)"
proof (rule scrape_catalog_cong)
  let ?st' = "st\<lparr>combo_page := Some tables'\<rparr>"
  show "fst ` set (listing_catalog ?st') = fst ` set (listing_catalog st)"
    by (simp add: listing_catalog_def)
  show "\<forall>k nm. entry (listing_catalog ?st') k nm = entry (listing_catalog st) k nm"
    by (simp add: listing_catalog_def)
  let ?es = "List.map_filter (combo_entry (mappings st)) (page_rows tables)"
  let ?es' = "List.map_filter (combo_entry (mappings st)) (page_rows tables')"
  have d: "distinct (map fst ?es)" using dist by (simp add: combo_ids_def)
  have p: "mset ?es' = mset ?es" using perm by (rule mset_map_filter)
  then have "mset (map fst ?es') = mset (map fst ?es)" by simp
  with d have d': "distinct (map fst ?es')" by (metis mset_eq_imp_distinct_iff)
  have m: "map_of ?es' = map_of ?es" using d p by (rule map_of_reorder)
  have "map_of (dict_update [] ?es') = map_of (dict_update [] ?es)"
    using d d' m by (rule dict_update_cong) simp
  then show "map_of (combo_spells_of ?st') = map_of (combo_spells_of st)"
    using cp by (simp add: combo_spells_page[OF cp] combo_spells_page[of ?st' tables'])
qed

lemma special_rows_reorder:
  assumes sp: "special_page st = Some (ts1 @ (pre @ seg @ post) # ts2)"
    and nh: "\<forall>r \<in> set seg. \<not> is_header r"
    and dist: "distinct (row_ids (mappings st) seg)"
    and perm: "mset seg' = mset seg"
  shows "\<exists>c c'. scrape_catalog st = Inr c
           \<and> scrape_catalog (st\<lparr>special_page := Some (ts1 @ (pre @ seg' @ post) # ts2)\<rparr>) = Inr c'
           \<and> fst ` set c' = fst ` set c \<and> (\<forall>k nm. entry c' k nm = entry c k nm)"
proof (rule scrape_catalog_cong)
  let ?st' = "st\<lparr>special_page := Some (ts1 @ (pre @ seg' @ post) # ts2)\<rparr>"
  show "fst ` set (listing_catalog ?st') = fst ` set (listing_catalog st)"
    using sp by (simp add: listing_keys)
  show "\<forall>k nm. entry (listing_catalog ?st') k nm = entry (listing_catalog st) k nm"
    using sp tables_reorder[OF nh dist perm, of SPECIAL_SCHOOL ts1 pre post ts2]
    by (simp add: listing_entry)
  show "map_of (combo_spells_of ?st') = map_of (combo_spells_of st)"
    by (simp add: combo_spells_of_def)
qed

lemma main_rows_reorder:
  assumes mp: "main_page st = Some (ls1 @ l # ls2)"
    and lp: "link_page l = Some (ts1 @ (pre @ seg @ post) # ts2)"
    and nh: "\<forall>r \<in> set seg. \<not> is_header r"
    and dist: "distinct (row_ids (mappings st) seg)"
    and perm: "mset seg' = mset seg"
  shows "\<exists>c c'. scrape_catalog st = Inr c
           \<and> scrape_catalog
               (st\<lparr>main_page :=
                     Some (ls1 @ l\<lparr>link_page := Some (ts1 @ (pre @ seg' @ post) # ts2)\<rparr> # ls2)\<rparr>)
               = Inr c'
           \<and> fst ` set c' = fst ` set c \<and> (\<forall>k nm. entry c' k nm = entry c k nm)"
proof (rule scrape_catalog_cong)
  let ?l' = "l\<lparr>link_page := Some (ts1 @ (pre @ seg' @ post) # ts2)\<rparr>"
  let ?st' = "st\<lparr>main_page := Some (ls1 @ ?l' # ls2)\<rparr>"
  let ?R = "\<lambda>l l'. link_text l' = link_text l \<and> link_url l' = link_url l
               \<and> (\<forall>d. map_of (case link_page l' of None \<Rightarrow> []
                              | Some ts \<Rightarrow> parse_tables (mappings st) d ts [])
                      = map_of (case link_page l of None \<Rightarrow> []
                                | Some ts \<Rightarrow> parse_tables (mappings st) d ts []))"
  have "?R l ?l'" using lp tables_reorder[OF nh dist perm] by simp
  then have "list_all2 ?R (ls1 @ l # ls2) (ls1 @ ?l' # ls2)"
    by (intro list_all2_appendI list_all2_refl list_all2_Cons[THEN iffD2] conjI) simp_all
  from scrape_links_cong[OF this, of "[]" "[]" "[]"]
  have s: "fst ` set (scrape_schools (mappings st) (main_page ?st'))
            = fst ` set (scrape_schools (mappings st) (main_page st))"
    "\<forall>k nm. entry (scrape_schools (mappings st) (main_page ?st')) k nm
            = entry (scrape_schools (mappings st) (main_page st)) k nm"
    using mp by (simp_all add: scrape_schools_def)
  show "fst ` set (listing_catalog ?st') = fst ` set (listing_catalog st)"
    using s(1) by (simp add: listing_keys)
  show "\<forall>k nm. entry (listing_catalog ?st') k nm = entry (listing_catalog st) k nm"
    using s(2) by (simp add: listing_entry cong: option.case_cong)
  show "map_of (combo_spells_of ?st') = map_of (combo_spells_of st)"
    by (simp add: combo_spells_of_def)
qed

section \<open>URL fields on merge\<close>

text \<open>
  C7, as stated, fails. Scenario 4: the Aerotheurge page lists a skill without an English
  URL and the page of the special skills lists the same identifier with one; after the
  run the general record still has no URL, and the special record is a second record
  under the special category. And a populated URL is not retained inside a pass: a later
  table of the same page that carries the identifier without a URL erases it.
\<close>

theorem url_filled_on_merge_counterexample:
  "Option.bind (result_entry (scrape_catalog general_special_site) AERO ''Teleportation'') en_url
     = Some []
   \<and> Option.bind (result_entry (scrape_catalog general_special_site) SPECIAL_SCHOOL
         ''Teleportation'') en_url
     = Some ''https://divinityoriginalsin2.wiki.fextralife.com/Teleportation''
   \<and> Option.bind (map_of (parse_tables no_mappings AERO [[teleport_row]] []) ''Teleportation'')
       en_url
     = Some ''https://divinityoriginalsin2.wiki.fextralife.com/Teleportation''
   \<and> Option.bind (map_of (parse_tables no_mappings AERO [[teleport_row], [untranslated_row]] [])
         ''Teleportation'') en_url
     = Some []"
  by code_simp

text \<open>
  C7, amended. Only the merge of the combo listing works field by field. Merging a combo
  record into an entry that exists fills \<open>en_url\<close>, the URL field that a listing pass
  can leave empty, when the entry has none and the combo record has one, and otherwise
  keeps it; it keeps \<open>ru_url\<close>, the display names, the tier and the primary school, and
  takes the combo flags from the combo record. For the run: it returns; an entry of the
  listing passes has no combo flags yet; if the combo listing does not name it, it is
  unchanged, and otherwise it is the entry merged as above. The listing passes do not
  merge records: the records of the special listing are stored under the special category
  and the entries of the other categories are those of the general listing; a later table
  of a page replaces the whole record of every identifier it carries; and a later row of
  a table replaces the whole record of its identifier.
\<close>

theorem url_filled_on_merge:
  "(merge_entry sd e = Inr e' \<longrightarrow>
      (\<not> truthy (en_url e) \<and> truthy (en_url sd) \<longrightarrow> en_url e' = en_url sd)
      \<and> (truthy (en_url e) \<or> \<not> truthy (en_url sd) \<longrightarrow> en_url e' = en_url e)
      \<and> ru_url e' = ru_url e \<and> ru_name e' = ru_name e \<and> en_name e' = en_name e
      \<and> tier e' = tier e \<and> primary_school e' = primary_school e
      \<and> secondary_school e' = secondary_school sd \<and> is_combo e' = Some True)
   \<and> (\<exists>cat1. scrape_catalog st = Inr cat1
         \<and> (\<forall>k nm c. entry (listing_catalog st) k nm = Some c \<longrightarrow>
               secondary_school c = None \<and> is_combo c = None
               \<and> (case map_of (combo_spells_of st) nm of
                     None \<Rightarrow> entry cat1 k nm = Some c
                   | Some d \<Rightarrow> (\<exists>c'. merge_entry d c = Inr c' \<and> entry cat1 k nm = Some c'))))
   \<and> entry (listing_catalog st) k nm =
       (if k = SPECIAL_SCHOOL
        then (case special_page st of
                None \<Rightarrow> None
              | Some tables \<Rightarrow> map_of (parse_tables (mappings st) SPECIAL_SCHOOL tables []) nm)
        else entry (scrape_schools (mappings st) (main_page st)) k nm)
   \<and> map_of (parse_tables mp d (tables @ [t]) sps) nm =
       (case map_of (parse_skill_table mp t d) nm of
          None \<Rightarrow> map_of (parse_tables mp d tables sps) nm
        | Some x \<Rightarrow> Some x)
   \<and> map_of (parse_rows mp d (rows @ [r]) (sps, tr)) nm =
       (case row_entry mp d (tier_after rows tr) r of
          None \<Rightarrow> map_of (parse_rows mp d rows (sps, tr)) nm
        | Some (k', x) \<Rightarrow>
            if nm = k' then Some x else map_of (parse_rows mp d rows (sps, tr)) nm)"
proof (intro conjI impI)
  assume m: "merge_entry sd e = Inr e'"
  note f = merge_entry_fields[OF m]
  show "\<not> truthy (en_url e) \<and> truthy (en_url sd) \<Longrightarrow> en_url e' = en_url sd" using f by simp
  show "truthy (en_url e) \<or> \<not> truthy (en_url sd) \<Longrightarrow> en_url e' = en_url e" using f by auto
  show "ru_url e' = ru_url e" "ru_name e' = ru_name e" "en_name e' = en_name e"
    "tier e' = tier e" "primary_school e' = primary_school e"
    "secondary_school e' = secondary_school sd" "is_combo e' = Some True"
    using f by simp_all
next
  from scrape_catalog_entries[of st] obtain cat1 where c: "scrape_catalog st = Inr cat1" by blast
  have "\<forall>k nm c. entry (listing_catalog st) k nm = Some c \<longrightarrow>
               secondary_school c = None \<and> is_combo c = None
               \<and> (case map_of (combo_spells_of st) nm of
                     None \<Rightarrow> entry cat1 k nm = Some c
                   | Some d \<Rightarrow> (\<exists>c'. merge_entry d c = Inr c' \<and> entry cat1 k nm = Some c'))"
  proof (intro allI impI)
    fix k nm e0 assume e: "entry (listing_catalog st) k nm = Some e0"
    from listing_entry_plain[OF e] have "secondary_school e0 = None \<and> is_combo e0 = None"
      by (simp add: plain_def)
    with final_entry_listed[OF c e]
    show "secondary_school e0 = None \<and> is_combo e0 = None
               \<and> (case map_of (combo_spells_of st) nm of
                     None \<Rightarrow> entry cat1 k nm = Some e0
                   | Some d \<Rightarrow> (\<exists>c'. merge_entry d e0 = Inr c' \<and> entry cat1 k nm = Some c'))"
      by simp
  qed
  with c show "\<exists>cat1. scrape_catalog st = Inr cat1
         \<and> (\<forall>k nm c. entry (listing_catalog st) k nm = Some c \<longrightarrow>
               secondary_school c = None \<and> is_combo c = None
               \<and> (case map_of (combo_spells_of st) nm of
                     None \<Rightarrow> entry cat1 k nm = Some c
                   | Some d \<Rightarrow> (\<exists>c'. merge_entry d c = Inr c' \<and> entry cat1 k nm = Some c')))"
    by (intro exI conjI)
next
  show "entry (listing_catalog st) k nm =
       (if k = SPECIAL_SCHOOL
        then (case special_page st of
                None \<Rightarrow> None
              | Some tables \<Rightarrow> map_of (parse_tables (mappings st) SPECIAL_SCHOOL tables []) nm)
        else entry (scrape_schools (mappings st) (main_page st)) k nm)"
    by (rule listing_entry)
  show "map_of (parse_tables mp d (tables @ [t]) sps) nm =
       (case map_of (parse_skill_table mp t d) nm of
          None \<Rightarrow> map_of (parse_tables mp d tables sps) nm
        | Some x \<Rightarrow> Some x)"
    by (rule parse_tables_snoc)
  show "map_of (parse_rows mp d (rows @ [r]) (sps, tr)) nm =
       (case row_entry mp d (tier_after rows tr) r of
          None \<Rightarrow> map_of (parse_rows mp d rows (sps, tr)) nm
        | Some (k', x) \<Rightarrow>
            if nm = k' then Some x else map_of (parse_rows mp d rows (sps, tr)) nm)"
    by (rule parse_rows_snoc)
qed

lemma sample_bubble_merged:
  "merge_entry
     (combo_record ''Vozdushnyi puzyr'' ''https://divinity.fandom.com/ru/wiki/VB'' ''Puzyr''
        AERO WARFARE)
     (listing_record ''Puzyr'' ''https://divinity.fandom.com/ru/wiki/B'' ''Puzyr'' ''Novice'' AERO)
   = Inr ((listing_record ''Puzyr'' ''https://divinity.fandom.com/ru/wiki/B'' ''Puzyr'' ''Novice'' AERO)
            \<lparr>is_combo := Some True, secondary_school := Some WARFARE,
             en_url := Some ''https://divinityoriginalsin2.wiki.fextralife.com/Puzyr''\<rparr>)"
  by code_simp

lemma sample_teleport_merged:
  "merge_entry
     (combo_record ''Teleportation'' ''https://divinity.fandom.com/ru/wiki/T'' ''Teleportation''
        AERO WARFARE)
     (listing_record ''Teleportatsiya'' ''https://divinity.fandom.com/ru/wiki/T'' ''Teleportation''
        ''Novice'' AERO)
   = Inr ((listing_record ''Teleportatsiya'' ''https://divinity.fandom.com/ru/wiki/T''
             ''Teleportation'' ''Novice'' AERO)
            \<lparr>is_combo := Some True, secondary_school := Some WARFARE\<rparr>)"
  by code_simp

lemma sample_teleport_url:
  "en_url (listing_record ''Teleportatsiya'' ''https://divinity.fandom.com/ru/wiki/T''
             ''Teleportation'' ''Novice'' AERO)
     = Some ''https://divinityoriginalsin2.wiki.fextralife.com/Teleportation''"
  by code_simp

theorem url_filled_on_merge_witness:
  "merge_entry
     (combo_record ''Vozdushnyi puzyr'' ''https://divinity.fandom.com/ru/wiki/VB'' ''Puzyr''
        AERO WARFARE)
     (listing_record ''Puzyr'' ''https://divinity.fandom.com/ru/wiki/B'' ''Puzyr'' ''Novice'' AERO)
   = Inr ((listing_record ''Puzyr'' ''https://divinity.fandom.com/ru/wiki/B'' ''Puzyr'' ''Novice'' AERO)
            \<lparr>is_combo := Some True, secondary_school := Some WARFARE,
             en_url := Some ''https://divinityoriginalsin2.wiki.fextralife.com/Puzyr''\<rparr>)
   \<and> en_url (listing_record ''Puzyr'' ''https://divinity.fandom.com/ru/wiki/B'' ''Puzyr'' ''Novice'' AERO)
     = Some []
   \<and> entry (listing_catalog (combo_site sample_combo_rows)) AERO ''Puzyr'' =
       Some (listing_record ''Puzyr'' ''https://divinity.fandom.com/ru/wiki/B'' ''Puzyr'' ''Novice'' AERO)
   \<and> (\<exists>cat1 c'. scrape_catalog (combo_site sample_combo_rows) = Inr cat1
         \<and> entry cat1 AERO ''Puzyr'' = Some c'
         \<and> en_url c' = Some ''https://divinityoriginalsin2.wiki.fextralife.com/Puzyr''
         \<and> ru_url c' = Some ''https://divinity.fandom.com/ru/wiki/B''
         \<and> tier c' = Some ''Novice'')
   \<and> en_url (listing_record ''Teleportatsiya'' ''https://divinity.fandom.com/ru/wiki/T''
               ''Teleportation'' ''Novice'' AERO)
     = Some ''https://divinityoriginalsin2.wiki.fextralife.com/Teleportation''
   \<and> en_url (combo_record ''Teleportation'' ''https://divinity.fandom.com/ru/wiki/T''
               ''Teleportation'' AERO WARFARE) = Some []
   \<and> (\<exists>e'. merge_entry
               (combo_record ''Teleportation'' ''https://divinity.fandom.com/ru/wiki/T''
                  ''Teleportation'' AERO WARFARE)
               (listing_record ''Teleportatsiya'' ''https://divinity.fandom.com/ru/wiki/T''
                  ''Teleportation'' ''Novice'' AERO) = Inr e'
            \<and> en_url e' = Some ''https://divinityoriginalsin2.wiki.fextralife.com/Teleportation'')"
proof -
  let ?e = "listing_record ''Puzyr'' ''https://divinity.fandom.com/ru/wiki/B'' ''Puzyr'' ''Novice'' AERO"
  let ?d = "combo_record ''Vozdushnyi puzyr'' ''https://divinity.fandom.com/ru/wiki/VB'' ''Puzyr''
        AERO WARFARE"
  from url_filled_on_merge
    [where st = "combo_site sample_combo_rows", THEN conjunct2, THEN conjunct1]
  obtain cat1 where
    c: "scrape_catalog (combo_site sample_combo_rows) = Inr cat1"
    and h: "\<forall>k nm c. entry (listing_catalog (combo_site sample_combo_rows)) k nm = Some c \<longrightarrow>
               secondary_school c = None \<and> is_combo c = None
               \<and> (case map_of (combo_spells_of (combo_site sample_combo_rows)) nm of
                     None \<Rightarrow> entry cat1 k nm = Some c
                   | Some d \<Rightarrow> (\<exists>c'. merge_entry d c = Inr c' \<and> entry cat1 k nm = Some c'))"
    by (elim exE conjE) (rule that; assumption)
  from h[rule_format, OF sample_bubble_listed]
  have "\<exists>c'. merge_entry ?d ?e = Inr c' \<and> entry cat1 AERO ''Puzyr'' = Some c'"
    by (simp add: sample_bubble_combo)
  then have en: "entry cat1 AERO ''Puzyr'' =
      Some (?e\<lparr>is_combo := Some True, secondary_school := Some WARFARE,
             en_url := Some ''https://divinityoriginalsin2.wiki.fextralife.com/Puzyr''\<rparr>)"
    by (simp add: sample_bubble_merged)
  have u: "en_url ?e = Some []" by (simp add: listing_record_def guess_en_url_def)
  have a: "\<exists>cat1 c'. scrape_catalog (combo_site sample_combo_rows) = Inr cat1
         \<and> entry cat1 AERO ''Puzyr'' = Some c'
         \<and> en_url c' = Some ''https://divinityoriginalsin2.wiki.fextralife.com/Puzyr''
         \<and> ru_url c' = Some ''https://divinity.fandom.com/ru/wiki/B''
         \<and> tier c' = Some ''Novice''"
    by (intro exI conjI, rule c, rule en) (simp_all add: listing_record_def)
  let ?t = "listing_record ''Teleportatsiya'' ''https://divinity.fandom.com/ru/wiki/T''
               ''Teleportation'' ''Novice'' AERO"
  let ?c = "combo_record ''Teleportation'' ''https://divinity.fandom.com/ru/wiki/T''
               ''Teleportation'' AERO WARFARE"
  have m: "merge_entry ?c ?t = Inr (?t\<lparr>is_combo := Some True, secondary_school := Some WARFARE\<rparr>)"
    by (rule sample_teleport_merged)
  have ut: "en_url ?t = Some ''https://divinityoriginalsin2.wiki.fextralife.com/Teleportation''"
    by (rule sample_teleport_url)
  have uc: "en_url ?c = Some []" by (simp add: combo_record_def guess_en_url_def)
  from url_filled_on_merge
    [where sd = ?c and e = ?t
       and e' = "?t\<lparr>is_combo := Some True, secondary_school := Some WARFARE\<rparr>",
     THEN conjunct1, rule_format, OF m]
  have "truthy (en_url ?t) \<or> \<not> truthy (en_url ?c) \<longrightarrow>
      en_url (?t\<lparr>is_combo := Some True, secondary_school := Some WARFARE\<rparr>) = en_url ?t"
    by (elim conjE)
  then have "en_url (?t\<lparr>is_combo := Some True, secondary_school := Some WARFARE\<rparr>) =
      Some ''https://divinityoriginalsin2.wiki.fextralife.com/Teleportation''"
    using ut by simp
  with m have k: "\<exists>e'. merge_entry ?c ?t = Inr e'
      \<and> en_url e' = Some ''https://divinityoriginalsin2.wiki.fextralife.com/Teleportation''"
    by (intro exI conjI)
  from u sample_bubble_listed sample_bubble_merged a ut uc k show ?thesis by (intro conjI)
qed

section \<open>The order of the records of a pass\<close>

text \<open>
  C6, as stated, fails: two rows of one table resolve to the same identifier; with the
  rows in one order the stored record has the Russian name of one row, with the rows in
  the other order that of the other row.
\<close>

theorem order_independence_counterexample:
  "Option.bind (result_entry (scrape_catalog alias_last_site) AERO ''Teleportation'') ru_name
     = Some ''Perenos''
   \<and> Option.bind (result_entry (scrape_catalog alias_first_site) AERO ''Teleportation'') ru_name
     = Some ''Teleportatsiya''"
  by code_simp

text \<open>
  C6, amended. The run always returns, and it gives the same categories and the same
  record for every category and identifier when the skill rows between two tier headers
  of a table of a school page, or of the page of the special skills, are put in another
  order, provided their identifiers are pairwise distinct; and when the rows of the
  marked tables of the combo page are put in another order, inside a table or across
  tables, provided their identifiers are pairwise distinct. The order of two rows of the
  same identifier decides the result: in a skill table and on the combo page, a row stores
  its record under its identifier, replacing what an earlier row stored there, and leaves
  the other identifiers alone. Nothing is stated about a row that moves across a tier
  header or about the order of the links of the main page.
\<close>

theorem order_independence:
  "(\<exists>c. scrape_catalog st = Inr c)
   \<and> (main_page st = Some (ls1 @ l # ls2)
        \<and> link_page l = Some (ts1 @ (pre @ seg @ post) # ts2)
        \<and> (\<forall>r \<in> set seg. \<not> is_header r)
        \<and> distinct (row_ids (mappings st) seg)
        \<and> mset seg' = mset seg
      \<longrightarrow> (\<exists>c c'. scrape_catalog st = Inr c
             \<and> scrape_catalog
                 (st\<lparr>main_page :=
                       Some (ls1 @ l\<lparr>link_page := Some (ts1 @ (pre @ seg' @ post) # ts2)\<rparr> # ls2)\<rparr>)
                 = Inr c'
             \<and> fst ` set c' = fst ` set c
             \<and> (\<forall>k nm. entry c' k nm = entry c k nm)))
   \<and> (special_page st = Some (ts1 @ (pre @ seg @ post) # ts2)
        \<and> (\<forall>r \<in> set seg. \<not> is_header r)
        \<and> distinct (row_ids (mappings st) seg)
        \<and> mset seg' = mset seg
      \<longrightarrow> (\<exists>c c'. scrape_catalog st = Inr c
             \<and> scrape_catalog (st\<lparr>special_page := Some (ts1 @ (pre @ seg' @ post) # ts2)\<rparr>)
                 = Inr c'
             \<and> fst ` set c' = fst ` set c
             \<and> (\<forall>k nm. entry c' k nm = entry c k nm)))
   \<and> (combo_page st = Some tables
        \<and> distinct (combo_ids (mappings st) (page_rows tables))
        \<and> mset (page_rows tables') = mset (page_rows tables)
      \<longrightarrow> (\<exists>c c'. scrape_catalog st = Inr c
             \<and> scrape_catalog (st\<lparr>combo_page := Some tables'\<rparr>) = Inr c'
             \<and> fst ` set c' = fst ` set c
             \<and> (\<forall>k nm. entry c' k nm = entry c k nm)))
   \<and> map_of (parse_rows mp d (rows @ [r]) (sps, t)) nm =
       (case row_entry mp d (tier_after rows t) r of
          None \<Rightarrow> map_of (parse_rows mp d rows (sps, t)) nm
        | Some (k', x) \<Rightarrow>
            if nm = k' then Some x else map_of (parse_rows mp d rows (sps, t)) nm)
   \<and> map_of (fold (combo_row_step mp) (crows @ [cr]) acc) nm =
       (case combo_entry mp cr of
          None \<Rightarrow> map_of (fold (combo_row_step mp) crows acc) nm
        | Some (k', x) \<Rightarrow>
            if nm = k' then Some x else map_of (fold (combo_row_step mp) crows acc) nm)"
proof (intro conjI impI)
  from scrape_catalog_entries[of st] obtain c where "scrape_catalog st = Inr c" by blast
  then show "\<exists>c. scrape_catalog st = Inr c" ..
next
  assume "main_page st = Some (ls1 @ l # ls2)
        \<and> link_page l = Some (ts1 @ (pre @ seg @ post) # ts2)
        \<and> (\<forall>r \<in> set seg. \<not> is_header r)
        \<and> distinct (row_ids (mappings st) seg)
        \<and> mset seg' = mset seg"
  then have a: "main_page st = Some (ls1 @ l # ls2)"
    "link_page l = Some (ts1 @ (pre @ seg @ post) # ts2)"
    "\<forall>r \<in> set seg. \<not> is_header r" "distinct (row_ids (mappings st) seg)"
    "mset seg' = mset seg"
    by simp_all
  show "\<exists>c c'. scrape_catalog st = Inr c
             \<and> scrape_catalog
                 (st\<lparr>main_page :=
                       Some (ls1 @ l\<lparr>link_page := Some (ts1 @ (pre @ seg' @ post) # ts2)\<rparr> # ls2)\<rparr>)
                 = Inr c'
             \<and> fst ` set c' = fst ` set c
             \<and> (\<forall>k nm. entry c' k nm = entry c k nm)"
    using a by (rule main_rows_reorder)
next
  assume "special_page st = Some (ts1 @ (pre @ seg @ post) # ts2)
        \<and> (\<forall>r \<in> set seg. \<not> is_header r)
        \<and> distinct (row_ids (mappings st) seg)
        \<and> mset seg' = mset seg"
  then have a: "special_page st = Some (ts1 @ (pre @ seg @ post) # ts2)"
    "\<forall>r \<in> set seg. \<not> is_header r" "distinct (row_ids (mappings st) seg)"
    "mset seg' = mset seg"
    by simp_all
  show "\<exists>c c'. scrape_catalog st = Inr c
             \<and> scrape_catalog (st\<lparr>special_page := Some (ts1 @ (pre @ seg' @ post) # ts2)\<rparr>)
                 = Inr c'
             \<and> fst ` set c' = fst ` set c
             \<and> (\<forall>k nm. entry c' k nm = entry c k nm)"
    using a by (rule special_rows_reorder)
next
  assume "combo_page st = Some tables
        \<and> distinct (combo_ids (mappings st) (page_rows tables))
        \<and> mset (page_rows tables') = mset (page_rows tables)"
  then have a: "combo_page st = Some tables"
    "distinct (combo_ids (mappings st) (page_rows tables))"
    "mset (page_rows tables') = mset (page_rows tables)"
    by simp_all
  show "\<exists>c c'. scrape_catalog st = Inr c
             \<and> scrape_catalog (st\<lparr>combo_page := Some tables'\<rparr>) = Inr c'
             \<and> fst ` set c' = fst ` set c
             \<and> (\<forall>k nm. entry c' k nm = entry c k nm)"
    using a by (rule combo_rows_reorder)
next
  show "map_of (parse_rows mp d (rows @ [r]) (sps, t)) nm =
       (case row_entry mp d (tier_after rows t) r of
          None \<Rightarrow> map_of (parse_rows mp d rows (sps, t)) nm
        | Some (k', x) \<Rightarrow>
            if nm = k' then Some x else map_of (parse_rows mp d rows (sps, t)) nm)"
    by (rule parse_rows_snoc)
  show "map_of (fold (combo_row_step mp) (crows @ [cr]) acc) nm =
       (case combo_entry mp cr of
          None \<Rightarrow> map_of (fold (combo_row_step mp) crows acc) nm
        | Some (k', x) \<Rightarrow>
            if nm = k' then Some x else map_of (fold (combo_row_step mp) crows acc) nm)"
    by (rule combo_rows_snoc)
qed

lemma sample_row_ids:
  "row_ids no_mappings [teleport_row, bubble_row] = [''Teleportation'', ''Puzyr'']"
  by code_simp

lemma sample_rows_plain:
  "\<not> is_header teleport_row \<and> \<not> is_header bubble_row"
  by (simp add: teleport_row_def bubble_row_def)

lemma sample_page_rows:
  "page_rows [\<lparr>table_text = COMBO_MARK, combo_rows = rows\<rparr>] = rows"
proof -
  have "contains COMBO_MARK COMBO_MARK" by code_simp
  then show ?thesis by (simp add: page_rows_def)
qed

lemma sample_combo_ids:
  "combo_ids no_mappings sample_combo_rows = [''Puzyr'', ''Vaporize'', ''Smoke Cover'']"
  by code_simp

lemma no_mappings_eq: "(\<lambda>ru. None) = no_mappings"
  by (rule ext) (simp add: no_mappings_def)

theorem order_independence_witness:
  "distinct (row_ids no_mappings [teleport_row, bubble_row])
   \<and> (\<exists>c c'. scrape_catalog (rows_site [teleport_row, bubble_row]) = Inr c
         \<and> scrape_catalog (rows_site [bubble_row, teleport_row]) = Inr c'
         \<and> fst ` set c' = fst ` set c
         \<and> (\<forall>k nm. entry c' k nm = entry c k nm))
   \<and> (\<exists>c c'. scrape_catalog (special_rows_site [teleport_row, bubble_row]) = Inr c
         \<and> scrape_catalog (special_rows_site [bubble_row, teleport_row]) = Inr c'
         \<and> fst ` set c' = fst ` set c
         \<and> (\<forall>k nm. entry c' k nm = entry c k nm))
   \<and> distinct (combo_ids no_mappings sample_combo_rows)
   \<and> (\<exists>c c'. scrape_catalog (combo_site sample_combo_rows) = Inr c
         \<and> scrape_catalog (combo_site (rev sample_combo_rows)) = Inr c'
         \<and> fst ` set c' = fst ` set c
         \<and> (\<forall>k nm. entry c' k nm = entry c k nm))"
proof -
  let ?l = "school_link AERO ''a'' [HeaderRow ''Novice'' # [teleport_row, bubble_row]]"
  have dr: "distinct (row_ids no_mappings [teleport_row, bubble_row])"
    unfolding sample_row_ids by simp
  have nh: "\<forall>r \<in> set [teleport_row, bubble_row]. \<not> is_header r"
    using sample_rows_plain by simp
  have pr: "mset [bubble_row, teleport_row] = mset [teleport_row, bubble_row]" by simp
  have m1: "main_page (rows_site [teleport_row, bubble_row]) = Some ([] @ ?l # [])"
    by (simp add: rows_site_def listing_site_def)
  have l1: "link_page ?l =
      Some ([] @ ([HeaderRow ''Novice''] @ [teleport_row, bubble_row] @ []) # [])"
    by (simp add: school_link_def)
  have mm: "mappings (rows_site [teleport_row, bubble_row]) = no_mappings"
    by (simp add: rows_site_def listing_site_def no_mappings_eq)
  have s1: "(rows_site [teleport_row, bubble_row])
      \<lparr>main_page := Some ([] @ ?l\<lparr>link_page :=
          Some ([] @ ([HeaderRow ''Novice''] @ [bubble_row, teleport_row] @ []) # [])\<rparr> # [])\<rparr>
      = rows_site [bubble_row, teleport_row]"
    by (simp add: rows_site_def listing_site_def school_link_def)
  have h1: "main_page (rows_site [teleport_row, bubble_row]) = Some ([] @ ?l # [])
        \<and> link_page ?l =
            Some ([] @ ([HeaderRow ''Novice''] @ [teleport_row, bubble_row] @ []) # [])
        \<and> (\<forall>r \<in> set [teleport_row, bubble_row]. \<not> is_header r)
        \<and> distinct (row_ids (mappings (rows_site [teleport_row, bubble_row]))
                      [teleport_row, bubble_row])
        \<and> mset [bubble_row, teleport_row] = mset [teleport_row, bubble_row]"
    using m1 l1 nh dr pr unfolding mm by (intro conjI)
  from order_independence
    [where st = "rows_site [teleport_row, bubble_row]" and ?ls1.0 = "[]" and l = ?l
       and ?ls2.0 = "[]" and ?ts1.0 = "[]" and pre = "[HeaderRow ''Novice'']"
       and seg = "[teleport_row, bubble_row]" and post = "[]" and ?ts2.0 = "[]"
       and seg' = "[bubble_row, teleport_row]",
     THEN conjunct2, THEN conjunct1, rule_format, OF h1]
  have a: "\<exists>c c'. scrape_catalog (rows_site [teleport_row, bubble_row]) = Inr c
         \<and> scrape_catalog (rows_site [bubble_row, teleport_row]) = Inr c'
         \<and> fst ` set c' = fst ` set c
         \<and> (\<forall>k nm. entry c' k nm = entry c k nm)"
    unfolding s1 .
  have m2: "special_page (special_rows_site [teleport_row, bubble_row]) =
      Some ([] @ ([HeaderRow ''Novice''] @ [teleport_row, bubble_row] @ []) # [])"
    by (simp add: special_rows_site_def)
  have mm2: "mappings (special_rows_site [teleport_row, bubble_row]) = no_mappings"
    by (simp add: special_rows_site_def no_mappings_eq)
  have s2: "(special_rows_site [teleport_row, bubble_row])
      \<lparr>special_page := Some ([] @ ([HeaderRow ''Novice''] @ [bubble_row, teleport_row] @ []) # [])\<rparr>
      = special_rows_site [bubble_row, teleport_row]"
    by (simp add: special_rows_site_def)
  have h2: "special_page (special_rows_site [teleport_row, bubble_row]) =
          Some ([] @ ([HeaderRow ''Novice''] @ [teleport_row, bubble_row] @ []) # [])
        \<and> (\<forall>r \<in> set [teleport_row, bubble_row]. \<not> is_header r)
        \<and> distinct (row_ids (mappings (special_rows_site [teleport_row, bubble_row]))
                      [teleport_row, bubble_row])
        \<and> mset [bubble_row, teleport_row] = mset [teleport_row, bubble_row]"
    using m2 nh dr pr unfolding mm2 by (intro conjI)
  from order_independence
    [where st = "special_rows_site [teleport_row, bubble_row]" and ?ts1.0 = "[]"
       and pre = "[HeaderRow ''Novice'']" and seg = "[teleport_row, bubble_row]"
       and post = "[]" and ?ts2.0 = "[]" and seg' = "[bubble_row, teleport_row]",
     THEN conjunct2, THEN conjunct2, THEN conjunct1, rule_format, OF h2]
  have b: "\<exists>c c'. scrape_catalog (special_rows_site [teleport_row, bubble_row]) = Inr c
         \<and> scrape_catalog (special_rows_site [bubble_row, teleport_row]) = Inr c'
         \<and> fst ` set c' = fst ` set c
         \<and> (\<forall>k nm. entry c' k nm = entry c k nm)"
    unfolding s2 .
  let ?T = "[\<lparr>table_text = COMBO_MARK, combo_rows = sample_combo_rows\<rparr>]"
  let ?T' = "[\<lparr>table_text = COMBO_MARK, combo_rows = rev sample_combo_rows\<rparr>]"
  have dc: "distinct (combo_ids no_mappings sample_combo_rows)"
    unfolding sample_combo_ids by simp
  have m3: "combo_page (combo_site sample_combo_rows) = Some ?T"
    by (simp add: combo_site_def)
  have mm3: "mappings (combo_site sample_combo_rows) = no_mappings"
    by (simp add: combo_site_def no_mappings_eq)
  have s3: "(combo_site sample_combo_rows)\<lparr>combo_page := Some ?T'\<rparr>
      = combo_site (rev sample_combo_rows)"
    by (simp add: combo_site_def)
  have h3: "combo_page (combo_site sample_combo_rows) = Some ?T
        \<and> distinct (combo_ids (mappings (combo_site sample_combo_rows)) (page_rows ?T))
        \<and> mset (page_rows ?T') = mset (page_rows ?T)"
    using m3 dc unfolding mm3 sample_page_rows by simp
  from order_independence
    [where st = "combo_site sample_combo_rows" and tables = ?T and tables' = ?T',
     THEN conjunct2, THEN conjunct2, THEN conjunct2, THEN conjunct1, rule_format, OF h3]
  have c: "\<exists>c c'. scrape_catalog (combo_site sample_combo_rows) = Inr c
         \<and> scrape_catalog (combo_site (rev sample_combo_rows)) = Inr c'
         \<and> fst ` set c' = fst ` set c
         \<and> (\<forall>k nm. entry c' k nm = entry c k nm)"
    unfolding s3 .
  from dr a b dc c show ?thesis by (intro conjI)
qed

section \<open>Exit codes and reports of the batch scripts\<close>




















end
